theory Spec2Isabelle
  imports Complex_Main "HOL-Library.Multiset"
begin

section \<open>Identifiers and numeric kernels\<close>

text \<open>
  All identifiers of the relational store are Python strings (primary keys of type
  \<open>String\<close> in \<open>models/models.py\<close>).
\<close>

type_synonym class_id = string
type_synonym document_id = string
type_synonym chunk_id = string
type_synonym student_id = string

text \<open>
  The embedding vectors are numpy arrays of 32-bit floats. Their arithmetic is not
  modelled: the vector type \<open>'v\<close> is abstract, and the three numeric operations the
  services rely on are taken as parameters, bundled in a record. \<open>vdim\<close> is the
  number of components of a vector, \<open>normalise\<close> is the division of a vector by its
  L2 norm, \<open>inner\<close> the inner product that FAISS computes. A similarity score is a
  finite float, hence a rational number.
\<close>

record 'v kernel =
  vdim :: "'v \<Rightarrow> nat"
  normalise :: "'v \<Rightarrow> 'v"
  inner :: "'v \<Rightarrow> 'v \<Rightarrow> rat"

section \<open>The flat inner-product index of FAISS\<close>

text \<open>
  \<open>faiss.IndexFlatIP(d)\<close> stores the vectors it is given in insertion order and
  never reorders them; \<open>ntotal\<close> is their number. \<open>add\<close> asserts that the rows
  have dimension \<open>d\<close>. \<open>search(q, k)\<close> asserts the dimension of the query and
  \<open>k > 0\<close>, and returns the \<open>k\<close> best positions by descending inner product.
  A failed assertion is an exception in Python: the result \<open>None\<close> here.
\<close>

record 'v faiss_index =
  index_d :: nat
  index_xb :: "'v list"

definition ntotal :: "'v faiss_index \<Rightarrow> nat" where
  "ntotal index = length (index_xb index)"

definition IndexFlatIP :: "nat \<Rightarrow> 'v faiss_index" where
  "IndexFlatIP dimen = \<lparr>index_d = dimen, index_xb = []\<rparr>"

definition faiss_add :: "'v kernel \<Rightarrow> 'v faiss_index \<Rightarrow> 'v list \<Rightarrow> 'v faiss_index option" where
  "faiss_add K index xs =
     (if list_all (\<lambda>x. vdim K x = index_d index) xs
      then Some (index\<lparr>index_xb := index_xb index @ xs\<rparr>)
      else None)"

definition faiss_search ::
  "'v kernel \<Rightarrow> 'v faiss_index \<Rightarrow> 'v \<Rightarrow> nat \<Rightarrow> (rat \<times> nat) list option" where
  "faiss_search K index q k =
     (if vdim K q \<noteq> index_d index \<or> k = 0 then None
      else Some (take k (sort_key (\<lambda>h. - fst h)
                  (map (\<lambda>(i, x). (inner K x q, i)) (enumerate 0 (index_xb index))))))"

section \<open>VectorDatabase (services/embedding\_service.py)\<close>

text \<open>
  The two dictionaries \<open>indexes\<close> and \<open>chunk_mappings\<close> of the class, keyed by
  class id, and the two companion files per class under \<open>data/vector_db\<close>. A mapping
  file holds \<open>None\<close> when it was opened for writing and nothing was pickled into it.
\<close>

record 'v vector_db =
  embedding_dim :: nat
  indexes :: "class_id \<rightharpoonup> 'v faiss_index"
  chunk_mappings :: "class_id \<rightharpoonup> chunk_id list"
  index_files :: "class_id \<rightharpoonup> 'v faiss_index"
  mapping_files :: "class_id \<rightharpoonup> chunk_id list option"

definition VectorDatabase :: "nat \<Rightarrow> 'v vector_db" where
  "VectorDatabase dimen =
     \<lparr>embedding_dim = dimen, indexes = Map.empty, chunk_mappings = Map.empty,
      index_files = Map.empty, mapping_files = Map.empty\<rparr>"

definition create_class_index :: "class_id \<Rightarrow> 'v vector_db \<Rightarrow> bool \<times> 'v vector_db" where
  "create_class_index class_id s =
     (True, s\<lparr>indexes := (indexes s)(class_id \<mapsto> IndexFlatIP (embedding_dim s)),
              chunk_mappings := (chunk_mappings s)(class_id \<mapsto> [])\<rparr>)"

text \<open>
  \<open>add_embeddings\<close>. The empty list stands for \<open>np.array([])\<close>, the value
  \<open>generate_embeddings\<close> returns for no texts: it is one-dimensional, so the norm
  along axis 1 raises and the method returns \<open>False\<close>. \<open>index.add\<close> mutates
  the index object in place, before the mapping is extended.
\<close>

definition add_embeddings ::
  "'v kernel \<Rightarrow> class_id \<Rightarrow> 'v list \<Rightarrow> chunk_id list \<Rightarrow> 'v vector_db \<Rightarrow> bool \<times> 'v vector_db" where
  "add_embeddings K class_id embeddings chunk_ids s =
     (let s1 = (if indexes s class_id = None then snd (create_class_index class_id s) else s)
      in case indexes s1 class_id of
           None \<Rightarrow> (False, s1)
         | Some index \<Rightarrow>
             if embeddings = [] then (False, s1)
             else (case faiss_add K index (map (normalise K) embeddings) of
                     None \<Rightarrow> (False, s1)
                   | Some index' \<Rightarrow>
                       let s2 = s1\<lparr>indexes := (indexes s1)(class_id \<mapsto> index')\<rparr>
                       in (case chunk_mappings s2 class_id of
                             None \<Rightarrow> (False, s2)
                           | Some m \<Rightarrow>
                               (True, s2\<lparr>chunk_mappings :=
                                          (chunk_mappings s2)(class_id \<mapsto> m @ chunk_ids)\<rparr>))))"

text \<open>
  The loop of \<open>search\<close> over the raw hits: a hit whose position is inside the mapping
  is translated to its chunk id, any other hit is skipped.
\<close>

fun convert_results :: "chunk_id list \<Rightarrow> (rat \<times> nat) list \<Rightarrow> (chunk_id \<times> rat) list" where
  "convert_results chunk_mapping [] = []"
| "convert_results chunk_mapping ((score, idx) # hits) =
     (if idx < length chunk_mapping
      then (chunk_mapping ! idx, score) # convert_results chunk_mapping hits
      else convert_results chunk_mapping hits)"

definition search ::
  "'v kernel \<Rightarrow> 'v vector_db \<Rightarrow> class_id \<Rightarrow> 'v \<Rightarrow> nat \<Rightarrow> (chunk_id \<times> rat) list" where
  "search K s class_id query_embedding k =
     (case indexes s class_id of
        None \<Rightarrow> []
      | Some index \<Rightarrow>
          (case chunk_mappings s class_id of
             None \<Rightarrow> []
           | Some chunk_mapping \<Rightarrow>
               if ntotal index = 0 then []
               else (case faiss_search K index (normalise K query_embedding)
                            (min k (ntotal index)) of
                       None \<Rightarrow> []
                     | Some hits \<Rightarrow> convert_results chunk_mapping hits)))"

text \<open>
  \<open>remove_document_embeddings\<close>, in the two passes of the source: the positions to
  remove are collected first, then the mapping is rebuilt without them. The index itself
  is not touched.
\<close>

definition remove_document_embeddings ::
  "class_id \<Rightarrow> document_id \<Rightarrow> chunk_id list \<Rightarrow> 'v vector_db \<Rightarrow> bool \<times> 'v vector_db" where
  "remove_document_embeddings class_id document_id chunk_ids s =
     (case indexes s class_id of
        None \<Rightarrow> (True, s)
      | Some index \<Rightarrow>
          (case chunk_mappings s class_id of
             None \<Rightarrow> (False, s)
           | Some current_mapping \<Rightarrow>
               let indices_to_remove =
                     filter (\<lambda>i. current_mapping ! i \<in> set chunk_ids)
                       [0..<length current_mapping]
               in if indices_to_remove = [] then (True, s)
                  else let new_mapping =
                             map (\<lambda>i. current_mapping ! i)
                               (filter (\<lambda>i. i \<notin> set indices_to_remove)
                                  [0..<length current_mapping])
                       in (True, s\<lparr>chunk_mappings :=
                                    (chunk_mappings s)(class_id \<mapsto> new_mapping)\<rparr>)))"

definition save_index :: "class_id \<Rightarrow> 'v vector_db \<Rightarrow> bool \<times> 'v vector_db" where
  "save_index class_id s =
     (case indexes s class_id of
        None \<Rightarrow> (False, s)
      | Some index \<Rightarrow>
          let s1 = s\<lparr>index_files := (index_files s)(class_id \<mapsto> index)\<rparr>
          in (case chunk_mappings s1 class_id of
                None \<Rightarrow> (False, s1\<lparr>mapping_files := (mapping_files s1)(class_id \<mapsto> None)\<rparr>)
              | Some m \<Rightarrow>
                  (True, s1\<lparr>mapping_files := (mapping_files s1)(class_id \<mapsto> Some m)\<rparr>)))"

definition load_index :: "class_id \<Rightarrow> 'v vector_db \<Rightarrow> bool \<times> 'v vector_db" where
  "load_index class_id s =
     (case (index_files s class_id, mapping_files s class_id) of
        (Some index, Some content) \<Rightarrow>
          let s1 = s\<lparr>indexes := (indexes s)(class_id \<mapsto> index)\<rparr>
          in (case content of
                None \<Rightarrow> (False, s1)
              | Some m \<Rightarrow> (True, s1\<lparr>chunk_mappings := (chunk_mappings s1)(class_id \<mapsto> m)\<rparr>))
      | _ \<Rightarrow> (False, s))"

record index_stats =
  stats_exists :: bool
  total_vectors :: "nat option"
  dimension :: "nat option"
  chunk_count :: "nat option"

definition get_index_stats :: "'v vector_db \<Rightarrow> class_id \<Rightarrow> index_stats" where
  "get_index_stats s class_id =
     (case indexes s class_id of
        None \<Rightarrow> \<lparr>stats_exists = False, total_vectors = None, dimension = None,
                  chunk_count = None\<rparr>
      | Some index \<Rightarrow>
          \<lparr>stats_exists = True, total_vectors = Some (ntotal index),
           dimension = Some (index_d index),
           chunk_count = Some (case chunk_mappings s class_id of
                                 None \<Rightarrow> 0 | Some m \<Rightarrow> length m)\<rparr>)"

section \<open>The relational store (models/models.py)\<close>

text \<open>
  The tables the services read and write, each a list of rows in storage order; only the
  columns the services use are kept. \<open>class_documents\<close> is the association table
  behind \<open>Class.documents\<close> and \<open>Document.assigned_classes\<close>, one row
  \<open>(class_id, document_id)\<close> per assignment.
\<close>

record class_row =
  class_row_id :: class_id
  class_name :: string
  class_enabled :: bool

record document_row =
  document_row_id :: document_id
  document_name :: string
  document_file_type :: string

record chunk_row =
  chunk_row_id :: chunk_id
  chunk_document_id :: document_id
  chunk_content :: string
  chunk_page_number :: "int option"
  chunk_section :: "string option"

record student_access_row =
  access_student_id :: student_id
  access_class_id :: class_id
  access_enabled :: bool

record database =
  classes :: "class_row list"
  documents :: "document_row list"
  document_chunks :: "chunk_row list"
  student_access :: "student_access_row list"
  class_documents :: "(class_id \<times> document_id) list"

text \<open>\<open>db.query(Class).filter(Class.id == class_id).first()\<close> and its siblings.\<close>

definition query_class :: "database \<Rightarrow> class_id \<Rightarrow> class_row option" where
  "query_class db class_id = find (\<lambda>r. class_row_id r = class_id) (classes db)"

definition query_document :: "database \<Rightarrow> document_id \<Rightarrow> document_row option" where
  "query_document db document_id = find (\<lambda>r. document_row_id r = document_id) (documents db)"

definition query_chunk :: "database \<Rightarrow> chunk_id \<Rightarrow> chunk_row option" where
  "query_chunk db chunk_id = find (\<lambda>r. chunk_row_id r = chunk_id) (document_chunks db)"

definition query_document_chunks :: "database \<Rightarrow> document_id \<Rightarrow> chunk_row list" where
  "query_document_chunks db document_id =
     filter (\<lambda>r. chunk_document_id r = document_id) (document_chunks db)"

text \<open>\<open>class_obj in document.assigned_classes\<close>, and \<open>list(class_obj.documents)\<close>.\<close>

definition assigned :: "database \<Rightarrow> document_id \<Rightarrow> class_id \<Rightarrow> bool" where
  "assigned db document_id class_id = ((class_id, document_id) \<in> set (class_documents db))"

definition class_documents_of :: "database \<Rightarrow> class_id \<Rightarrow> document_row list" where
  "class_documents_of db class_id =
     filter (\<lambda>r. assigned db (document_row_id r) class_id) (documents db)"

section \<open>ClassIsolationService (services/class\_isolation\_service.py)\<close>

text \<open>
  The service owns a database session and a \<open>VectorDatabase\<close> of its own.
  \<open>assign_document_to_class\<close> builds a fresh \<open>EmbeddingService\<close> on every call
  that has chunks to embed; loading the model or encoding may raise. The embedder is a
  parameter \<open>E\<close>: \<open>E n texts\<close> is the outcome of the \<open>n\<close>-th use of the embedder,
  \<open>None\<close> when it raises, and the service state counts the uses.
\<close>

record 'v isolation_service =
  db :: database
  vector_db :: "'v vector_db"
  embed_calls :: nat

type_synonym 'v embedder = "nat \<Rightarrow> string list \<Rightarrow> 'v list option"

text \<open>
  The constructor: \<open>VectorDatabase()\<close> with the default dimension 384 and empty
  dictionaries (the service never loads a saved index), over whatever files are on disk.
\<close>

definition ClassIsolationService ::
  "database \<Rightarrow> (class_id \<rightharpoonup> 'v faiss_index) \<Rightarrow> (class_id \<rightharpoonup> chunk_id list option) \<Rightarrow> nat
     \<Rightarrow> 'v isolation_service" where
  "ClassIsolationService session ifiles mfiles n =
     \<lparr>db = session,
      vector_db = (VectorDatabase 384)\<lparr>index_files := ifiles, mapping_files := mfiles\<rparr>,
      embed_calls = n\<rparr>"

definition create_class_collection ::
  "class_id \<Rightarrow> 'v isolation_service \<Rightarrow> bool \<times> 'v isolation_service" where
  "create_class_collection class_id st =
     (case query_class (db st) class_id of
        None \<Rightarrow> (False, st)
      | Some class_obj \<Rightarrow>
          let (success, v) = create_class_index class_id (vector_db st)
          in (success, st\<lparr>vector_db := v\<rparr>))"

definition assign_document_to_class ::
  "'v embedder \<Rightarrow> 'v kernel \<Rightarrow> document_id \<Rightarrow> class_id \<Rightarrow> 'v isolation_service
     \<Rightarrow> bool \<times> 'v isolation_service" where
  "assign_document_to_class E K document_id class_id st =
     (case (query_document (db st) document_id, query_class (db st) class_id) of
        (Some document, Some class_obj) \<Rightarrow>
          if assigned (db st) document_id class_id then (True, st)
          else
            let st1 = st\<lparr>db := (db st)\<lparr>class_documents :=
                          class_documents (db st) @ [(class_id, document_id)]\<rparr>\<rparr>;
                chunks = query_document_chunks (db st1) document_id
            in if chunks \<noteq> [] then
                 (case E (embed_calls st1) (map chunk_content chunks) of
                    None \<Rightarrow> (False, st1\<lparr>embed_calls := Suc (embed_calls st1)\<rparr>)
                  | Some embeddings \<Rightarrow>
                      let chunk_ids = map chunk_row_id chunks;
                          v1 = snd (add_embeddings K class_id embeddings chunk_ids
                                      (vector_db st1));
                          v2 = snd (save_index class_id v1)
                      in (True, st1\<lparr>vector_db := v2,
                                     embed_calls := Suc (embed_calls st1)\<rparr>))
               else (True, st1)
      | _ \<Rightarrow> (False, st))"

definition remove_document_from_class ::
  "document_id \<Rightarrow> class_id \<Rightarrow> 'v isolation_service \<Rightarrow> bool \<times> 'v isolation_service" where
  "remove_document_from_class document_id class_id st =
     (case (query_document (db st) document_id, query_class (db st) class_id) of
        (Some document, Some class_obj) \<Rightarrow>
          let st1 = (if assigned (db st) document_id class_id
                     then st\<lparr>db := (db st)\<lparr>class_documents :=
                            filter (\<lambda>r. r \<noteq> (class_id, document_id))
                              (class_documents (db st))\<rparr>\<rparr>
                     else st);
              chunks = query_document_chunks (db st1) document_id;
              chunk_ids = map chunk_row_id chunks;
              v1 = snd (remove_document_embeddings class_id document_id chunk_ids
                          (vector_db st1));
              v2 = snd (save_index class_id v1)
          in (True, st1\<lparr>vector_db := v2\<rparr>)
      | _ \<Rightarrow> (False, st))"

definition get_class_documents :: "'v isolation_service \<Rightarrow> class_id \<Rightarrow> document_row list" where
  "get_class_documents st class_id =
     (case query_class (db st) class_id of
        None \<Rightarrow> []
      | Some class_obj \<Rightarrow> class_documents_of (db st) class_id)"

definition verify_student_access :: "database \<Rightarrow> student_id \<Rightarrow> class_id \<Rightarrow> bool" where
  "verify_student_access session student_id class_id =
     (case query_class session class_id of
        None \<Rightarrow> False
      | Some class_obj \<Rightarrow>
          if \<not> class_enabled class_obj then False
          else (case find (\<lambda>a. access_student_id a = student_id
                               \<and> access_class_id a = class_id
                               \<and> access_enabled a = True) (student_access session) of
                  None \<Rightarrow> False
                | Some access \<Rightarrow> True))"

text \<open>
  \<open>migrate_class_documents\<close>: the result dictionary and the loop over the documents
  of the source class, one step per document.
\<close>

record migration_results =
  migrated :: "(document_id \<times> string) list"
  failed :: "document_id list"
  total :: nat

definition migrate_document ::
  "'v embedder \<Rightarrow> 'v kernel \<Rightarrow> class_id \<Rightarrow> class_id \<Rightarrow> document_row
     \<Rightarrow> migration_results \<times> 'v isolation_service
     \<Rightarrow> migration_results \<times> 'v isolation_service" where
  "migrate_document E K from_class_id to_class_id doc rs =
     (let (results, st) = rs;
          (removed, st1) = remove_document_from_class (document_row_id doc) from_class_id st
      in if removed then
           (let (added, st2) =
                  assign_document_to_class E K (document_row_id doc) to_class_id st1
            in if added then
                 (results\<lparr>migrated := migrated results
                             @ [(document_row_id doc, document_name doc)]\<rparr>, st2)
               else
                 (results\<lparr>failed := failed results @ [document_row_id doc]\<rparr>,
                  snd (assign_document_to_class E K (document_row_id doc) from_class_id st2)))
         else (results\<lparr>failed := failed results @ [document_row_id doc]\<rparr>, st1))"

fun migrate_loop ::
  "'v embedder \<Rightarrow> 'v kernel \<Rightarrow> class_id \<Rightarrow> class_id \<Rightarrow> document_row list
     \<Rightarrow> migration_results \<times> 'v isolation_service
     \<Rightarrow> migration_results \<times> 'v isolation_service" where
  "migrate_loop E K from_class_id to_class_id [] rs = rs"
| "migrate_loop E K from_class_id to_class_id (doc # docs) rs =
     migrate_loop E K from_class_id to_class_id docs
       (migrate_document E K from_class_id to_class_id doc rs)"

definition migrate_class_documents ::
  "'v embedder \<Rightarrow> 'v kernel \<Rightarrow> class_id \<Rightarrow> class_id \<Rightarrow> 'v isolation_service
     \<Rightarrow> (string + migration_results) \<times> 'v isolation_service" where
  "migrate_class_documents E K from_class_id to_class_id st =
     (case (query_class (db st) from_class_id, query_class (db st) to_class_id) of
        (Some from_class, Some to_class) \<Rightarrow>
          let docs = class_documents_of (db st) from_class_id;
              (results, st') =
                 migrate_loop E K from_class_id to_class_id docs
                   (\<lparr>migrated = [], failed = [], total = length docs\<rparr>, st)
          in (Inr results, st')
      | _ \<Rightarrow> (Inl ''Source or destination class not found'', st))"

section \<open>RAGService (services/rag\_service.py)\<close>

record citation =
  citation_document_id :: document_id
  citation_document_name :: string
  citation_page_number :: "int option"
  citation_section :: "string option"
  citation_chunk_id :: chunk_id
  relevance_score :: rat
  content_preview :: string

record document_reference =
  reference_id :: document_id
  reference_name :: string
  reference_type :: string

text \<open>
  The \<open>error\<close> field of a response holds a message. It is either a text written in
  the service, or \<open>str(e)\<close> of a pydantic \<open>ValidationError\<close>, whose text is not
  modelled.
\<close>

datatype error_message = Message string | ValidationError

record query_response =
  answer :: string
  citations :: "citation list"
  used_documents :: "document_reference list"
  confidence :: rat
  processing_time :: int
  success :: bool
  error :: "error_message option"

text \<open>
  The two response schemas validate their fields when an object is built
  (\<open>schemas/queries.py\<close>): a citation needs a relevance score between 0 and 1 and a
  content preview of at most 200 characters, a query response a confidence between 0
  and 1. A failed validation raises: the result \<open>None\<close> here.
\<close>

definition CitationResponse :: "citation \<Rightarrow> citation option" where
  "CitationResponse c =
     (if 0 \<le> relevance_score c \<and> relevance_score c \<le> 1 \<and> length (content_preview c) \<le> 200
      then Some c else None)"

definition QueryResponse :: "query_response \<Rightarrow> query_response option" where
  "QueryResponse r = (if 0 \<le> confidence r \<and> confidence r \<le> 1 then Some r else None)"

text \<open>
  The service holds a database session, a \<open>VectorDatabase\<close> and its three
  configuration attributes. The constructor loads the embedding model (so a service
  that exists has a working query embedder, the parameter \<open>Q\<close> below), creates an
  empty \<open>VectorDatabase\<close> over the files found on disk and loads the saved index of
  every class.
\<close>

record 'v rag_service =
  rag_db :: database
  rag_vector_db :: "'v vector_db"
  similarity_threshold :: rat
  max_chunks :: nat
  max_context_length :: nat

definition load_existing_indexes :: "class_row list \<Rightarrow> 'v vector_db \<Rightarrow> 'v vector_db" where
  "load_existing_indexes cs v = fold (\<lambda>class_obj w. snd (load_index (class_row_id class_obj) w)) cs v"

definition RAGService ::
  "database \<Rightarrow> nat \<Rightarrow> (class_id \<rightharpoonup> 'v faiss_index) \<Rightarrow> (class_id \<rightharpoonup> chunk_id list option)
     \<Rightarrow> 'v rag_service" where
  "RAGService session dimen ifiles mfiles =
     \<lparr>rag_db = session,
      rag_vector_db = load_existing_indexes (classes session)
                        ((VectorDatabase dimen)\<lparr>index_files := ifiles, mapping_files := mfiles\<rparr>),
      similarity_threshold = 7 / 10,
      max_chunks = 5,
      max_context_length = 2000\<rparr>"

text \<open>
  The loop of \<open>_search_relevant_chunks\<close> over the search results: a candidate is
  kept when its score reaches the threshold and its chunk row is found.
\<close>

fun collect_relevant ::
  "database \<Rightarrow> rat \<Rightarrow> (chunk_id \<times> rat) list \<Rightarrow> (chunk_row \<times> rat) list" where
  "collect_relevant session threshold [] = []"
| "collect_relevant session threshold ((chunk_id, similarity_score) # rest) =
     (if similarity_score \<ge> threshold then
        (case query_chunk session chunk_id of
           Some chunk \<Rightarrow> (chunk, similarity_score) # collect_relevant session threshold rest
         | None \<Rightarrow> collect_relevant session threshold rest)
      else collect_relevant session threshold rest)"

text \<open>
  \<open>list.sort(key, reverse=True)\<close> is stable: it is the stable ascending sort on the
  negated key.
\<close>

definition search_relevant_chunks ::
  "'v kernel \<Rightarrow> 'v rag_service \<Rightarrow> class_id \<Rightarrow> 'v \<Rightarrow> (chunk_row \<times> rat) list" where
  "search_relevant_chunks K svc class_id query_embedding =
     (let search_results =
            search K (rag_vector_db svc) class_id query_embedding (max_chunks svc * 2)
      in if search_results = [] then []
         else let relevant_chunks =
                    collect_relevant (rag_db svc) (similarity_threshold svc) search_results
              in take (max_chunks svc) (sort_key (\<lambda>x. - snd x) relevant_chunks))"

definition create_no_results_response :: "int \<Rightarrow> query_response" where
  "create_no_results_response elapsed =
     \<lparr>answer = ''I can't find this in the school materials. Please make sure your question relates to the course content provided by your teacher.'',
      citations = [], used_documents = [], confidence = 0, processing_time = elapsed,
      success = True, error = None\<rparr>"

definition create_error_response :: "error_message \<Rightarrow> int \<Rightarrow> query_response" where
  "create_error_response error_message elapsed =
     \<lparr>answer = ''I'm sorry, I encountered an error processing your question. Please try again.'',
      citations = [], used_documents = [], confidence = 0, processing_time = elapsed,
      success = False, error = Some error_message\<rparr>"

text \<open>
  The loop of \<open>_generate_response\<close>: the context parts, the citations and the
  used documents (a dictionary keyed by document id, in insertion order). The loop stops
  with \<open>None\<close> at the first citation that fails its validation.
\<close>

definition make_citation :: "document_row \<Rightarrow> chunk_row \<Rightarrow> rat \<Rightarrow> citation" where
  "make_citation document chunk similarity_score =
     \<lparr>citation_document_id = document_row_id document,
      citation_document_name = document_name document,
      citation_page_number = chunk_page_number chunk,
      citation_section = chunk_section chunk,
      citation_chunk_id = chunk_row_id chunk,
      relevance_score = similarity_score,
      content_preview = (if length (chunk_content chunk) > 200
                         then take 200 (chunk_content chunk) @ ''...''
                         else chunk_content chunk)\<rparr>"

fun collect_context ::
  "database \<Rightarrow> (chunk_row \<times> rat) list
     \<Rightarrow> string list \<times> citation list \<times> document_reference list
     \<Rightarrow> (string list \<times> citation list \<times> document_reference list) option" where
  "collect_context session [] acc = Some acc"
| "collect_context session ((chunk, similarity_score) # rest) (context_parts, cits, used) =
     (case query_document session (chunk_document_id chunk) of
        None \<Rightarrow>
          collect_context session rest (context_parts @ [chunk_content chunk], cits, used)
      | Some document \<Rightarrow>
          (case CitationResponse (make_citation document chunk similarity_score) of
             None \<Rightarrow> None
           | Some cit \<Rightarrow>
               collect_context session rest
                 (context_parts @ [chunk_content chunk],
                  cits @ [cit],
                  (if document_row_id document \<in> set (map reference_id used) then used
                   else used @ [\<lparr>reference_id = document_row_id document,
                                  reference_name = document_name document,
                                  reference_type = document_file_type document\<rparr>]))))"

fun join_parts :: "string \<Rightarrow> string list \<Rightarrow> string" where
  "join_parts sep [] = []"
| "join_parts sep [p] = p"
| "join_parts sep (p # q # ps) = p @ sep @ join_parts sep (q # ps)"

text \<open>
  \<open>_generate_response\<close>. The placeholder \<open>_generate_answer_from_context\<close> is the
  parameter \<open>A\<close>; the time stamp of a document reference is left out. A
  validation error of a citation or of the response is caught and turned into the error
  response. The processing time of the result is overwritten by the caller.
\<close>

definition generate_response ::
  "(string \<Rightarrow> string \<Rightarrow> string) \<Rightarrow> 'v rag_service \<Rightarrow> string \<Rightarrow> (chunk_row \<times> rat) list
     \<Rightarrow> class_id \<Rightarrow> int \<Rightarrow> query_response" where
  "generate_response A svc query relevant_chunks class_id elapsed =
     (if relevant_chunks = [] then create_no_results_response elapsed
      else
        (case collect_context (rag_db svc) relevant_chunks ([], [], []) of
           None \<Rightarrow> create_error_response ValidationError elapsed
         | Some (context_parts, cits, used) \<Rightarrow>
             let joined = join_parts [CHR 0x0A, CHR 0x0A] context_parts;
                 full_context = (if length joined > max_context_length svc
                                 then take (max_context_length svc) joined @ ''...''
                                 else joined);
                 avg_similarity = sum_list (map snd relevant_chunks)
                                    / of_nat (length relevant_chunks)
             in (case QueryResponse
                        \<lparr>answer = A query full_context,
                         citations = cits, used_documents = used,
                         confidence = min avg_similarity 1,
                         processing_time = 0, success = True, error = None\<rparr> of
                   None \<Rightarrow> create_error_response ValidationError elapsed
                 | Some response \<Rightarrow> response)))"

definition process_query ::
  "(string \<Rightarrow> 'v) \<Rightarrow> 'v kernel \<Rightarrow> (string \<Rightarrow> string \<Rightarrow> string) \<Rightarrow> 'v rag_service
     \<Rightarrow> string \<Rightarrow> class_id \<Rightarrow> student_id \<Rightarrow> int \<Rightarrow> query_response" where
  "process_query Q K A svc query class_id student_id elapsed =
     (case query_class (rag_db svc) class_id of
        None \<Rightarrow> create_error_response (Message ''Class not found'') elapsed
      | Some class_obj \<Rightarrow>
          let query_embedding = Q query;
              relevant_chunks = search_relevant_chunks K svc class_id query_embedding
          in if relevant_chunks = [] then create_no_results_response elapsed
             else (generate_response A svc query relevant_chunks class_id elapsed)
                    \<lparr>processing_time := elapsed\<rparr>)"

section \<open>DocumentProcessor: sentence splitting (services/document\_processor.py)\<close>

text \<open>
  Text is a list of 8-bit characters. \<open>is_space\<close> is Python's notion of white space
  (\<open>str.isspace\<close>, and \<open>\s\<close> of a string pattern) on the code points below 256.
\<close>

definition is_space :: "char \<Rightarrow> bool" where
  "is_space c =
     (let n = (of_char c :: nat)
      in (9 \<le> n \<and> n \<le> 13) \<or> (28 \<le> n \<and> n \<le> 32) \<or> n = 133 \<or> n = 160)"

definition is_sentence_end :: "char \<Rightarrow> bool" where
  "is_sentence_end c = (c = CHR ''.'' \<or> c = CHR ''!'' \<or> c = CHR ''?'')"

definition strip :: "string \<Rightarrow> string" where
  "strip s = rev (dropWhile is_space (rev (dropWhile is_space s)))"

text \<open>
  \<open>re.split(r'[.!?]+\s+', text)\<close>. The pattern matches, leftmost first, a maximal run
  of sentence-end characters followed by a maximal non-empty run of white space; a run of
  sentence-end characters that no white space follows matches at none of its positions.
  \<open>piece\<close> is the text since the last match.
\<close>

function re_split_from :: "string \<Rightarrow> string \<Rightarrow> string list" where
  "re_split_from piece [] = [piece]"
| "re_split_from piece (c # cs) =
     (if is_sentence_end c then
        (case dropWhile is_sentence_end cs of
           [] \<Rightarrow> [piece @ c # cs]
         | w # ws \<Rightarrow>
             if is_space w then piece # re_split_from [] (dropWhile is_space ws)
             else re_split_from (piece @ c # takeWhile is_sentence_end cs @ [w]) ws)
      else re_split_from (piece @ [c]) cs)"
  by pat_completeness auto
termination
proof (relation "measure (\<lambda>(piece, text). length text)")
  show "wf (measure (\<lambda>(piece, text). length text))" by simp
next
  fix piece :: string and c :: char and cs :: string and w :: char and ws :: string
  assume "dropWhile is_sentence_end cs = w # ws"
  then have "length (w # ws) \<le> length cs"
    by (metis length_dropWhile_le)
  moreover have "length (dropWhile is_space ws) \<le> length ws"
    by (rule length_dropWhile_le)
  ultimately show "((([]::string), dropWhile is_space ws), (piece, c # cs))
      \<in> measure (\<lambda>(piece, text). length text)"
    by simp
next
  fix piece :: string and c :: char and cs :: string and w :: char and ws :: string
  assume "dropWhile is_sentence_end cs = w # ws"
  then have "length (w # ws) \<le> length cs"
    by (metis length_dropWhile_le)
  then show "((piece @ c # takeWhile is_sentence_end cs @ [w], ws), (piece, c # cs))
      \<in> measure (\<lambda>(piece, text). length text)"
    by simp
next
  fix piece :: string and c :: char and cs :: string
  show "((piece @ [c], cs), (piece, c # cs)) \<in> measure (\<lambda>(piece, text). length text)"
    by simp
qed

definition re_split :: "string \<Rightarrow> string list" where
  "re_split text = re_split_from [] text"

definition split_into_sentences :: "string \<Rightarrow> string list" where
  "split_into_sentences text =
     map strip (filter (\<lambda>s. length (strip s) > 10) (re_split text))"

section \<open>States a service can reach, and concrete instances\<close>

text \<open>
  The states of one \<open>ClassIsolationService\<close> object: the constructed state, and
  the states after any sequence of \<open>create_class_collection\<close>,
  \<open>assign_document_to_class\<close> and \<open>remove_document_from_class\<close>.
\<close>

inductive reachable :: "'v embedder \<Rightarrow> 'v kernel \<Rightarrow> 'v isolation_service \<Rightarrow> bool"
  for E :: "'v embedder" and K :: "'v kernel" where
  constructed: "reachable E K (ClassIsolationService session ifiles mfiles n)"
| created: "reachable E K st \<Longrightarrow> reachable E K (snd (create_class_collection c st))"
| assigned_to: "reachable E K st \<Longrightarrow> reachable E K (snd (assign_document_to_class E K d c st))"
| removed_from: "reachable E K st \<Longrightarrow> reachable E K (snd (remove_document_from_class d c st))"

text \<open>
  The chunk ids in the mapping of a class that has an index all belong to chunks of
  documents assigned to that class.
\<close>

definition mapping_owned :: "'v isolation_service \<Rightarrow> bool" where
  "mapping_owned st =
     (\<forall>c index m. indexes (vector_db st) c = Some index \<longrightarrow>
        chunk_mappings (vector_db st) c = Some m \<longrightarrow>
        (\<forall>x \<in> set m. \<exists>ch \<in> set (document_chunks (db st)).
            chunk_row_id ch = x \<and> assigned (db st) (chunk_document_id ch) c))"

text \<open>
  Concrete numeric kernels. \<open>basis_kernel n\<close>: the standard basis vectors of
  dimension \<open>n\<close>, each represented by the position of its 1; they have norm 1, and
  two of them have inner product 1 when equal and 0 otherwise. \<open>scalar_kernel\<close>:
  one-dimensional vectors, with the product as inner product.
\<close>

definition basis_kernel :: "nat \<Rightarrow> nat kernel" where
  "basis_kernel n =
     \<lparr>vdim = (\<lambda>i. n), normalise = (\<lambda>i. i), inner = (\<lambda>i j. if i = j then 1 else 0)\<rparr>"

definition scalar_kernel :: "rat kernel" where
  "scalar_kernel = \<lparr>vdim = (\<lambda>x. 1), normalise = (\<lambda>x. x), inner = (\<lambda>x y. x * y)\<rparr>"

text \<open>
  An embedder that raises on the uses listed in \<open>down\<close> and otherwise maps a text
  to the basis vector at the position given by its length.
\<close>

definition length_embedder :: "nat list \<Rightarrow> nat embedder" where
  "length_embedder down n texts =
     (if n \<in> set down then None else Some (map (\<lambda>t. length t mod 384) texts))"

text \<open>
  The sample data of \<open>tests/test_isolation.py\<close>: two classes, three documents with
  one chunk each, one access record per student.
\<close>

definition sample_data :: database where
  "sample_data =
     \<lparr>classes =
        [\<lparr>class_row_id = ''class1'', class_name = ''Math 101'', class_enabled = True\<rparr>,
         \<lparr>class_row_id = ''class2'', class_name = ''Science 101'', class_enabled = True\<rparr>],
      documents =
        [\<lparr>document_row_id = ''doc1'', document_name = ''Math Textbook'',
          document_file_type = ''pdf''\<rparr>,
         \<lparr>document_row_id = ''doc2'', document_name = ''Science Textbook'',
          document_file_type = ''pdf''\<rparr>,
         \<lparr>document_row_id = ''doc3'', document_name = ''Shared Resource'',
          document_file_type = ''pdf''\<rparr>],
      document_chunks =
        [\<lparr>chunk_row_id = ''chunk1'', chunk_document_id = ''doc1'',
          chunk_content = ''Math content'', chunk_page_number = None, chunk_section = None\<rparr>,
         \<lparr>chunk_row_id = ''chunk2'', chunk_document_id = ''doc2'',
          chunk_content = ''Science content'', chunk_page_number = None, chunk_section = None\<rparr>,
         \<lparr>chunk_row_id = ''chunk3'', chunk_document_id = ''doc3'',
          chunk_content = ''Shared content'', chunk_page_number = None, chunk_section = None\<rparr>],
      student_access =
        [\<lparr>access_student_id = ''student1'', access_class_id = ''class1'',
          access_enabled = True\<rparr>,
         \<lparr>access_student_id = ''student2'', access_class_id = ''class2'',
          access_enabled = True\<rparr>],
      class_documents = []\<rparr>"

definition sample_service :: "nat isolation_service" where
  "sample_service = ClassIsolationService sample_data Map.empty Map.empty 0"

text \<open>
  A vector database of dimension 2 holding, for class \<open>c\<close>, the two chunks \<open>a\<close>
  and \<open>b\<close> with the two basis vectors.
\<close>

definition two_chunks :: "nat vector_db" where
  "two_chunks =
     snd (add_embeddings (basis_kernel 2) ''c'' [0, 1] [''a'', ''b'']
            (snd (create_class_index ''c'' (VectorDatabase 2))))"

text \<open>
  The eight cases of the access check: one class \<open>c\<close>, enabled or not; an access
  record for the student \<open>s\<close> and that class, present or not; the record enabled or not.
\<close>

definition access_case :: "bool \<Rightarrow> bool \<Rightarrow> bool \<Rightarrow> database" where
  "access_case cls_enabled has_record record_enabled =
     \<lparr>classes = [\<lparr>class_row_id = ''c'', class_name = ''C'', class_enabled = cls_enabled\<rparr>],
      documents = [], document_chunks = [],
      student_access =
        (if has_record
         then [\<lparr>access_student_id = ''s'', access_class_id = ''c'',
                access_enabled = record_enabled\<rparr>]
         else []),
      class_documents = []\<rparr>"

text \<open>
  The sample service after \<open>doc1\<close> was assigned to \<open>class1\<close> with a working
  embedder, and after a further \<open>create_class_collection\<close> for that class.
\<close>

definition sample_assigned :: "nat isolation_service" where
  "sample_assigned =
     snd (assign_document_to_class (length_embedder []) (basis_kernel 384)
            ''doc1'' ''class1'' sample_service)"

definition sample_recreated :: "nat isolation_service" where
  "sample_recreated = snd (create_class_collection ''class1'' sample_assigned)"

text \<open>
  Two query services over the scalar kernel, for the class \<open>c\<close>. In the first, the
  saved index holds four vectors whose scores against the query vector 1 are 0.9, 0.75,
  0.65 and 0.5, for four stored chunks. In the second, the saved mapping names a chunk
  \<open>ghost\<close> that has no row in the chunk table any more.
\<close>

definition four_chunks_data :: database where
  "four_chunks_data =
     \<lparr>classes = [\<lparr>class_row_id = ''c'', class_name = ''C'', class_enabled = True\<rparr>],
      documents = [\<lparr>document_row_id = ''d'', document_name = ''D'',
                    document_file_type = ''txt''\<rparr>],
      document_chunks =
        map (\<lambda>k. \<lparr>chunk_row_id = k, chunk_document_id = ''d'', chunk_content = k,
                    chunk_page_number = None, chunk_section = None\<rparr>)
          [''k1'', ''k2'', ''k3'', ''k4''],
      student_access = [],
      class_documents = [(''c'', ''d'')]\<rparr>"

definition four_chunks_service :: "rat rag_service" where
  "four_chunks_service =
     RAGService four_chunks_data 1
       [''c'' \<mapsto> \<lparr>index_d = 1, index_xb = [9 / 10, 3 / 4, 13 / 20, 1 / 2]\<rparr>]
       [''c'' \<mapsto> Some [''k1'', ''k2'', ''k3'', ''k4'']]"

definition ghost_service :: "rat rag_service" where
  "ghost_service =
     RAGService (four_chunks_data\<lparr>document_chunks := []\<rparr>) 1
       [''c'' \<mapsto> \<lparr>index_d = 1, index_xb = [9 / 10]\<rparr>]
       [''c'' \<mapsto> Some [''ghost'']]"

text \<open>A query service over the sample data, with no saved index on disk.\<close>

definition sample_rag_service :: "nat rag_service" where
  "sample_rag_service = RAGService sample_data 384 Map.empty Map.empty"

text \<open>
  Every class that has an index in memory also has a mapping.
\<close>

definition has_mappings :: "'v vector_db \<Rightarrow> bool" where
  "has_mappings s = (dom (indexes s) \<subseteq> dom (chunk_mappings s))"

text \<open>
  A vector database that loaded the index of class \<open>c\<close> from disk where the mapping
  file is unreadable: \<open>load_index\<close> stored the index and then failed.
\<close>

definition unreadable_mapping :: "nat vector_db" where
  "unreadable_mapping =
     snd (load_index ''c''
            ((VectorDatabase 2)
               \<lparr>index_files := [''c'' \<mapsto> \<lparr>index_d = 2, index_xb = [0, 1]\<rparr>],
                mapping_files := [''c'' \<mapsto> None]\<rparr>))"

text \<open>
  The requests of the API each build their own service over the same database session
  and the same files. After \<open>doc1\<close> was assigned to \<open>class1\<close> (the state
  \<open>sample_assigned\<close>, which saved the index of \<open>class1\<close>): a new isolation
  service for the removal request, its state after removing \<open>doc1\<close> from
  \<open>class1\<close>, and a new query service built afterwards.
\<close>

definition removal_request :: "nat isolation_service" where
  "removal_request =
     ClassIsolationService (db sample_assigned)
       (index_files (vector_db sample_assigned)) (mapping_files (vector_db sample_assigned))
       (embed_calls sample_assigned)"

definition after_removal :: "nat isolation_service" where
  "after_removal = snd (remove_document_from_class ''doc1'' ''class1'' removal_request)"

definition query_request :: "nat rag_service" where
  "query_request =
     RAGService (db after_removal) 384
       (index_files (vector_db after_removal)) (mapping_files (vector_db after_removal))"

section \<open>Properties of the vector database\<close>

lemma rebuild_mapping_filter:
  "map (\<lambda>i. m ! i)
     (filter (\<lambda>i. i \<notin> set (filter (\<lambda>i. m ! i \<in> set ids) [0..<length m])) [0..<length m])
   = filter (\<lambda>x. x \<notin> set ids) m"
proof -
  have "filter (\<lambda>i. i \<notin> set (filter (\<lambda>i. m ! i \<in> set ids) [0..<length m])) [0..<length m]
      = filter (\<lambda>i. m ! i \<notin> set ids) [0..<length m]"
    by (rule filter_cong) auto
  moreover have "map (\<lambda>i. m ! i) (filter (\<lambda>i. m ! i \<notin> set ids) [0..<length m])
      = filter (\<lambda>x. x \<notin> set ids) (map (\<lambda>i. m ! i) [0..<length m])"
    by (simp add: filter_map comp_def)
  ultimately show ?thesis by (simp add: map_nth)
qed

lemma no_indices_filter:
  assumes "filter (\<lambda>i. m ! i \<in> set ids) [0..<length m] = []"
  shows "filter (\<lambda>x. x \<notin> set ids) m = m"
proof -
  have "\<forall>i < length m. m ! i \<notin> set ids"
    using assms by (auto simp: filter_empty_conv)
  then have "\<forall>x \<in> set m. x \<notin> set ids"
    by (metis in_set_conv_nth)
  then show ?thesis by simp
qed

lemma remove_document_embeddings_eq:
  assumes "indexes s c = Some index" and "chunk_mappings s c = Some m"
  shows "remove_document_embeddings c d ids s
       = (True, if filter (\<lambda>x. x \<notin> set ids) m = m then s
                else s\<lparr>chunk_mappings := (chunk_mappings s)(c \<mapsto> filter (\<lambda>x. x \<notin> set ids) m)\<rparr>)"
proof (cases "filter (\<lambda>i. m ! i \<in> set ids) [0..<length m] = []")
  case True
  then show ?thesis
    using assms no_indices_filter [OF True]
    by (simp add: remove_document_embeddings_def Let_def)
next
  case False
  then have "\<exists>i < length m. m ! i \<in> set ids"
    by (auto simp: filter_empty_conv)
  then have "\<exists>x \<in> set m. x \<in> set ids"
    by (metis nth_mem)
  then have "filter (\<lambda>x. x \<notin> set ids) m \<noteq> m"
    by (metis (mono_tags, lifting) filter_id_conv)
  then show ?thesis
    using assms False rebuild_mapping_filter [of m ids]
    by (simp add: remove_document_embeddings_def Let_def del: set_filter)
qed

text \<open>
  Claim C4, as amended. For a class that has an index and a mapping,
  \<open>remove_document_embeddings\<close> returns \<open>True\<close>; the new mapping is the old one
  filtered to the chunk ids that are not in the given list, in the old order; the index
  of the class is the same object with the same vectors, so its \<open>ntotal\<close> is
  unchanged.
\<close>

theorem remove_document_embeddings_mapping:
  assumes "indexes s c = Some index" and "chunk_mappings s c = Some m"
  shows "fst (remove_document_embeddings c d ids s) = True
       \<and> chunk_mappings (snd (remove_document_embeddings c d ids s)) c
           = Some (filter (\<lambda>x. x \<notin> set ids) m)
       \<and> indexes (snd (remove_document_embeddings c d ids s)) = indexes s
       \<and> map_option ntotal (indexes (snd (remove_document_embeddings c d ids s)) c)
           = Some (ntotal index)"
  using assms by (simp add: remove_document_embeddings_eq [OF assms])

lemma two_chunks_state:
  "indexes two_chunks ''c'' = Some \<lparr>index_d = 2, index_xb = [0, 1]\<rparr>
   \<and> chunk_mappings two_chunks ''c'' = Some [''a'', ''b'']"
  by (simp add: two_chunks_def add_embeddings_def create_class_index_def VectorDatabase_def
      basis_kernel_def faiss_add_def IndexFlatIP_def Let_def)

theorem remove_document_embeddings_mapping_witness:
  "fst (remove_document_embeddings ''c'' ''d'' [''a''] two_chunks) = True
   \<and> chunk_mappings (snd (remove_document_embeddings ''c'' ''d'' [''a''] two_chunks)) ''c''
       = Some [''b'']
   \<and> map_option ntotal (indexes (snd (remove_document_embeddings ''c'' ''d'' [''a''] two_chunks)) ''c'')
       = Some 2"
  using remove_document_embeddings_mapping
          [of two_chunks "''c''" "\<lparr>index_d = 2, index_xb = [0, 1]\<rparr>" "[''a'', ''b'']" "''d''" "[''a'']"]
        two_chunks_state
  by (simp add: ntotal_def)

lemma unreadable_mapping_state:
  "indexes unreadable_mapping ''c'' = Some \<lparr>index_d = 2, index_xb = [0, 1]\<rparr>"
  "chunk_mappings unreadable_mapping ''c'' = None"
  by (simp_all add: unreadable_mapping_def load_index_def VectorDatabase_def)

text \<open>
  A class can have an index and no mapping: \<open>load_index\<close> stores the index before
  it unpickles the mapping. There the method returns \<open>False\<close>, so the claim does not
  hold for every class that has an index.
\<close>

theorem index_without_mapping_fails:
  "\<not> (\<forall>(s :: nat vector_db) c d ids.
        indexes s c \<noteq> None \<longrightarrow> fst (remove_document_embeddings c d ids s))"
proof
  assume "\<forall>(s :: nat vector_db) c d ids.
        indexes s c \<noteq> None \<longrightarrow> fst (remove_document_embeddings c d ids s)"
  then have "fst (remove_document_embeddings ''c'' ''d'' [''a''] unreadable_mapping)"
    using unreadable_mapping_state(1) by fastforce
  then show False
    by (simp add: remove_document_embeddings_def unreadable_mapping_state)
qed

text \<open>
  The other operations of the vector database keep a mapping beside every index.
\<close>

lemma has_mappings_new: "has_mappings (VectorDatabase n)"
  by (simp add: has_mappings_def VectorDatabase_def)

lemma has_mappings_create:
  "has_mappings s \<Longrightarrow> has_mappings (snd (create_class_index c s))"
  by (auto simp: has_mappings_def create_class_index_def)

lemma has_mappings_add:
  "has_mappings s \<Longrightarrow> has_mappings (snd (add_embeddings K c e ids s))"
  by (auto simp: has_mappings_def add_embeddings_def create_class_index_def Let_def
      split: option.splits if_splits)

lemma has_mappings_remove:
  "has_mappings s \<Longrightarrow> has_mappings (snd (remove_document_embeddings c d ids s))"
  by (auto simp: has_mappings_def remove_document_embeddings_def Let_def
      split: option.splits if_splits)

lemma has_mappings_save:
  "has_mappings s \<Longrightarrow> has_mappings (snd (save_index c s))"
  by (auto simp: has_mappings_def save_index_def Let_def split: option.splits)

lemma convert_results_eq:
  "convert_results m hits
   = map (\<lambda>(score, idx). (m ! idx, score)) (filter (\<lambda>(score, idx). idx < length m) hits)"
  by (induction m hits rule: convert_results.induct) auto

lemma faiss_search_hits:
  assumes "faiss_search K index q k = Some hits"
  shows "length hits \<le> k"
    and "length hits \<le> ntotal index"
    and "ntotal index \<le> k \<Longrightarrow> mset (map snd hits) = mset [0..<ntotal index]"
proof -
  let ?all = "sort_key (\<lambda>h. - fst h) (map (\<lambda>(i, x). (inner K x q, i)) (enumerate 0 (index_xb index)))"
  have hits: "hits = take k ?all"
    using assms by (auto simp: faiss_search_def split: if_splits)
  have len: "length ?all = ntotal index"
    by (simp add: ntotal_def)
  show "length hits \<le> k" by (simp add: hits)
  show "length hits \<le> ntotal index" using len by (simp add: hits)
  have "map snd (map (\<lambda>(i, x). (inner K x q, i)) (enumerate 0 (index_xb index)))
        = map fst (enumerate 0 (index_xb index))"
    by (simp add: case_prod_unfold comp_def)
  moreover have "mset (map snd ?all)
        = mset (map snd (map (\<lambda>(i, x). (inner K x q, i)) (enumerate 0 (index_xb index))))"
    by (metis mset_map mset_sort)
  ultimately have "mset (map snd ?all) = mset [0..<ntotal index]"
    by (simp add: ntotal_def)
  moreover assume "ntotal index \<le> k"
  then have "hits = ?all" using len by (simp add: hits)
  ultimately show "mset (map snd hits) = mset [0..<ntotal index]" by simp
qed

lemma filter_below_upt: "l \<le> n \<Longrightarrow> filter (\<lambda>i. i < l) [0..<n] = [0..<l]"
proof -
  assume "l \<le> n"
  then have "[0..<n] = [0..<l] @ [l..<n]"
    by (metis le_add_diff_inverse upt_add_eq_append zero_le)
  then show ?thesis by simp
qed

lemma count_mapped_hits:
  assumes "mset (map snd hits) = mset [0..<n]" and "l \<le> n"
  shows "length (filter (\<lambda>(score :: rat, idx). idx < l) hits) = l"
proof -
  have "length (filter (\<lambda>(score, idx). idx < l) hits)
      = length (filter (\<lambda>i. i < l) (map snd hits))"
    by (simp add: filter_map comp_def case_prod_unfold)
  also have "\<dots> = size (filter_mset (\<lambda>i. i < l) (mset (map snd hits)))"
    by (metis mset_filter size_mset)
  also have "\<dots> = length (filter (\<lambda>i. i < l) [0..<n])"
    by (metis assms(1) mset_filter size_mset)
  finally show ?thesis using assms(2) by (simp add: filter_below_upt)
qed

text \<open>
  Claim C10. \<open>search\<close> never reads the mapping out of range, whatever the lengths of the
  mapping and of the index: its result is the list of raw hits whose position lies inside
  the mapping, each translated to its chunk id; the other hits are dropped without a
  trace. So it returns at most \<open>min k ntotal\<close> pairs, and when the mapping is shorter
  than the index and all vectors are asked for, it returns exactly as many pairs as the
  mapping is long, which is fewer than \<open>min k ntotal\<close>. (When FAISS itself raises,
  the result is the empty list, by the definition.)
\<close>

theorem search_drops_unmapped_hits:
  assumes "indexes s c = Some index" and "chunk_mappings s c = Some m"
    and "faiss_search K index (normalise K q) (min k (ntotal index)) = Some hits"
  shows "search K s c q k
           = map (\<lambda>(score, idx). (m ! idx, score)) (filter (\<lambda>(score, idx). idx < length m) hits)
       \<and> length (search K s c q k) \<le> min k (ntotal index)
       \<and> (length m < ntotal index \<and> ntotal index \<le> k \<longrightarrow>
            length (search K s c q k) = length m
            \<and> length (search K s c q k) < min k (ntotal index))"
proof -
  have pos: "ntotal index \<noteq> 0"
    using assms(3) by (auto simp: faiss_search_def split: if_splits)
  have eq: "search K s c q k
      = map (\<lambda>(score, idx). (m ! idx, score)) (filter (\<lambda>(score, idx). idx < length m) hits)"
    using assms pos by (simp add: search_def convert_results_eq)
  have "length (search K s c q k) \<le> length hits"
    by (simp add: eq)
  then have le: "length (search K s c q k) \<le> min k (ntotal index)"
    using faiss_search_hits(1) [OF assms(3)] by simp
  have short: "length (search K s c q k) = length m
      \<and> length (search K s c q k) < min k (ntotal index)"
    if "length m < ntotal index" and "ntotal index \<le> k"
  proof -
    have "mset (map snd hits) = mset [0..<ntotal index]"
      using faiss_search_hits(3) [OF assms(3)] that(2) by simp
    then have "length (filter (\<lambda>(score, idx). idx < length m) hits) = length m"
      using that(1) by (intro count_mapped_hits) auto
    then show ?thesis using that by (simp add: eq)
  qed
  show ?thesis using eq le short by blast
qed

theorem search_drops_unmapped_hits_witness:
  "search (basis_kernel 2) (snd (remove_document_embeddings ''c'' ''d'' [''a''] two_chunks))
        ''c'' 1 5 = [(''b'', 0)]
   \<and> length (search (basis_kernel 2)
        (snd (remove_document_embeddings ''c'' ''d'' [''a''] two_chunks)) ''c'' 1 5) < min 5 2"
proof -
  let ?s = "snd (remove_document_embeddings ''c'' ''d'' [''a''] two_chunks)"
  have s: "?s = two_chunks\<lparr>chunk_mappings := (chunk_mappings two_chunks)(''c'' \<mapsto> [''b''])\<rparr>"
    using two_chunks_state
    by (simp add: remove_document_embeddings_eq [of two_chunks "''c''" _ "[''a'', ''b'']"])
  have i: "indexes ?s ''c'' = Some \<lparr>index_d = 2, index_xb = [0, 1]\<rparr>"
    and m: "chunk_mappings ?s ''c'' = Some [''b'']"
    using two_chunks_state by (simp_all add: s)
  have h: "faiss_search (basis_kernel 2) \<lparr>index_d = 2, index_xb = [0, 1]\<rparr>
             (normalise (basis_kernel 2) 1) (min 5 (ntotal \<lparr>index_d = 2, index_xb = [0, 1::nat]\<rparr>))
           = Some [(1, 1), (0, 0)]"
    by (simp add: faiss_search_def basis_kernel_def ntotal_def enumerate_eq_zip upt_rec)
  show ?thesis
    using search_drops_unmapped_hits [OF i m h] by (simp add: ntotal_def)
qed

text \<open>
  Claim C2 (violated by the code). The positional correspondence is lost by a removal. After
  \<open>create_class_index\<close>, one \<open>add_embeddings\<close> of the chunks \<open>a\<close>, \<open>b\<close>
  and one \<open>remove_document_embeddings\<close> of \<open>a\<close>, the mapping has one entry and
  the index still two vectors; position 0 of the mapping is \<open>b\<close> while vector 0 is
  the vector of \<open>a\<close>, and a search for the vector of \<open>a\<close> returns \<open>b\<close> with
  the score 1 of \<open>a\<close>.
\<close>

theorem removal_breaks_positional_correspondence:
  "chunk_mappings (snd (remove_document_embeddings ''c'' ''d'' [''a''] two_chunks)) ''c''
     = Some [''b'']
   \<and> map_option index_xb
       (indexes (snd (remove_document_embeddings ''c'' ''d'' [''a''] two_chunks)) ''c'')
     = Some [0, 1]
   \<and> search (basis_kernel 2) two_chunks ''c'' 0 2 = [(''a'', 1), (''b'', 0)]
   \<and> search (basis_kernel 2)
        (snd (remove_document_embeddings ''c'' ''d'' [''a''] two_chunks)) ''c'' 0 2
     = [(''b'', 1)]"
proof -
  let ?s = "snd (remove_document_embeddings ''c'' ''d'' [''a''] two_chunks)"
  have s: "?s = two_chunks\<lparr>chunk_mappings := (chunk_mappings two_chunks)(''c'' \<mapsto> [''b''])\<rparr>"
    using two_chunks_state
    by (simp add: remove_document_embeddings_eq [of two_chunks "''c''" _ "[''a'', ''b'']"])
  show ?thesis
    using two_chunks_state
    by (simp add: s search_def ntotal_def faiss_search_def basis_kernel_def
        enumerate_eq_zip upt_rec)
qed

section \<open>Properties of the isolation service\<close>

lemma find_distinct_key:
  assumes "distinct (map f xs)"
  shows "find (\<lambda>r. f r = k) xs = Some r \<longleftrightarrow> r \<in> set xs \<and> f r = k"
  using assms
proof (induction xs)
  case Nil
  then show ?case by simp
next
  case (Cons a xs)
  then show ?case by (auto simp: image_iff)
qed

lemma verify_student_access_first:
  "verify_student_access session s c =
     ((\<exists>class_obj. query_class session c = Some class_obj \<and> class_enabled class_obj)
      \<and> (\<exists>a \<in> set (student_access session).
            access_student_id a = s \<and> access_class_id a = c \<and> access_enabled a))"
proof (cases "query_class session c")
  case None
  then show ?thesis by (simp add: verify_student_access_def)
next
  case (Some class_obj)
  show ?thesis
  proof (cases "find (\<lambda>a. access_student_id a = s \<and> access_class_id a = c
                          \<and> access_enabled a) (student_access session)")
    case None
    then have "\<not> (\<exists>a \<in> set (student_access session).
            access_student_id a = s \<and> access_class_id a = c \<and> access_enabled a)"
      by (simp add: find_None_iff)
    then show ?thesis
      using Some None by (simp add: verify_student_access_def)
  next
    case (Some a)
    then have "a \<in> set (student_access session) \<and> access_student_id a = s
               \<and> access_class_id a = c \<and> access_enabled a"
      by (auto simp: find_Some_iff)
    then show ?thesis
      using Some \<open>query_class session c = Some class_obj\<close>
      by (auto simp: verify_student_access_def)
  qed
qed

text \<open>
  Claim C3. With class ids a primary key, \<open>verify_student_access\<close> returns \<open>True\<close>
  exactly when the class exists and is enabled and some access record for this student
  and this class is enabled; in every other case it returns \<open>False\<close>.
\<close>

theorem verify_student_access_iff:
  assumes "distinct (map class_row_id (classes session))"
  shows "verify_student_access session s c =
     ((\<exists>r \<in> set (classes session). class_row_id r = c \<and> class_enabled r)
      \<and> (\<exists>a \<in> set (student_access session).
            access_student_id a = s \<and> access_class_id a = c \<and> access_enabled a))"
proof -
  have "(\<exists>class_obj. query_class session c = Some class_obj \<and> class_enabled class_obj)
      = (\<exists>r \<in> set (classes session). class_row_id r = c \<and> class_enabled r)"
    using find_distinct_key [OF assms] by (auto simp: query_class_def)
  then show ?thesis by (simp add: verify_student_access_first)
qed

theorem verify_student_access_iff_witness:
  "map (\<lambda>(cls_enabled, has_record, record_enabled).
          verify_student_access (access_case cls_enabled has_record record_enabled) ''s'' ''c'')
     [(True, True, True), (True, True, False), (True, False, True), (True, False, False),
      (False, True, True), (False, True, False), (False, False, True), (False, False, False)]
   = [True, False, False, False, False, False, False, False]"
proof -
  have d: "distinct (map class_row_id (classes (access_case x y z)))" for x y z
    by (simp add: access_case_def)
  show ?thesis
    using verify_student_access_iff [OF d, of _ _ _ "''s''" "''c''"]
    by (simp add: access_case_def)
qed

lemma assign_document_to_class_db:
  "db (snd (assign_document_to_class E K d c st)) =
     (if query_document (db st) d \<noteq> None \<and> query_class (db st) c \<noteq> None
         \<and> \<not> assigned (db st) d c
      then (db st)\<lparr>class_documents := class_documents (db st) @ [(c, d)]\<rparr>
      else db st)"
  by (auto simp: assign_document_to_class_def Let_def split: option.splits)

lemma remove_document_from_class_db:
  "db (snd (remove_document_from_class d c st)) =
     (if query_document (db st) d \<noteq> None \<and> query_class (db st) c \<noteq> None
      then (db st)\<lparr>class_documents := filter (\<lambda>r. r \<noteq> (c, d)) (class_documents (db st))\<rparr>
      else db st)"
proof -
  have "filter (\<lambda>r. r \<noteq> (c, d)) (class_documents (db st)) = class_documents (db st)"
    if "\<not> assigned (db st) d c"
    using that by (auto simp: assigned_def filter_id_conv)
  then show ?thesis
    by (auto simp: remove_document_from_class_def Let_def split: option.splits)
qed

lemma remove_document_from_class_fst:
  "fst (remove_document_from_class d c st)
     = (query_document (db st) d \<noteq> None \<and> query_class (db st) c \<noteq> None)"
  by (auto simp: remove_document_from_class_def Let_def split: option.splits)

text \<open>
  Claim C9. When the document and the class exist and the document is already assigned to the
  class, \<open>assign_document_to_class\<close> returns \<open>True\<close> and the whole state of the
  service (relational store, indexes, mappings, files, embedder uses) is the one before
  the call.
\<close>

theorem assign_already_assigned:
  assumes "query_document (db st) d = Some document"
    and "query_class (db st) c = Some class_obj"
    and "assigned (db st) d c"
  shows "assign_document_to_class E K d c st = (True, st)"
  using assms by (simp add: assign_document_to_class_def)

lemma sample_assigned_db:
  "db sample_assigned = sample_data\<lparr>class_documents := [(''class1'', ''doc1'')]\<rparr>"
  by (simp add: sample_assigned_def assign_document_to_class_db sample_service_def
      ClassIsolationService_def sample_data_def query_document_def query_class_def assigned_def)

lemma sample_assigned_vector_db:
  "indexes (vector_db sample_assigned) ''class1'' = Some \<lparr>index_d = 384, index_xb = [12]\<rparr>
   \<and> chunk_mappings (vector_db sample_assigned) ''class1'' = Some [''chunk1'']"
  by (simp add: sample_assigned_def assign_document_to_class_def sample_service_def
      ClassIsolationService_def sample_data_def query_document_def query_class_def assigned_def
      query_document_chunks_def length_embedder_def add_embeddings_def create_class_index_def
      VectorDatabase_def IndexFlatIP_def faiss_add_def basis_kernel_def save_index_def Let_def)

theorem assign_already_assigned_witness:
  "assigned (db sample_assigned) ''doc1'' ''class1''
   \<and> assign_document_to_class (length_embedder []) (basis_kernel 384) ''doc1'' ''class1''
        sample_assigned = (True, sample_assigned)"
proof -
  have d: "query_document (db sample_assigned) ''doc1''
      = Some \<lparr>document_row_id = ''doc1'', document_name = ''Math Textbook'',
               document_file_type = ''pdf''\<rparr>"
    by (simp add: sample_assigned_db sample_data_def query_document_def)
  have c: "query_class (db sample_assigned) ''class1''
      = Some \<lparr>class_row_id = ''class1'', class_name = ''Math 101'', class_enabled = True\<rparr>"
    by (simp add: sample_assigned_db sample_data_def query_class_def)
  have a: "assigned (db sample_assigned) ''doc1'' ''class1''"
    by (simp add: sample_assigned_db assigned_def)
  show ?thesis
    using assign_already_assigned [OF d c a] a by simp
qed

subsection \<open>The isolation invariant\<close>

lemma save_index_maps:
  "indexes (snd (save_index c v)) = indexes v"
  "chunk_mappings (snd (save_index c v)) = chunk_mappings v"
  by (auto simp: save_index_def Let_def split: option.splits)

lemma add_embeddings_other:
  assumes "c' \<noteq> c"
  shows "indexes (snd (add_embeddings K c e ids v)) c' = indexes v c'"
    and "chunk_mappings (snd (add_embeddings K c e ids v)) c' = chunk_mappings v c'"
  using assms
  by (auto simp: add_embeddings_def create_class_index_def Let_def split: option.splits)

lemma add_embeddings_mapping:
  assumes "chunk_mappings (snd (add_embeddings K c e ids v)) c = Some m'"
    and "indexes (snd (add_embeddings K c e ids v)) c = Some i'"
    and "x \<in> set m'"
  shows "x \<in> set ids
       \<or> (\<exists>i m. indexes v c = Some i \<and> chunk_mappings v c = Some m \<and> x \<in> set m)"
  using assms
  by (auto simp: add_embeddings_def create_class_index_def Let_def
      split: option.splits if_splits)

lemma remove_document_embeddings_maps:
  "indexes (snd (remove_document_embeddings c d ids v)) = indexes v"
  "c' \<noteq> c \<Longrightarrow> chunk_mappings (snd (remove_document_embeddings c d ids v)) c'
                 = chunk_mappings v c'"
  "indexes v c = Some i \<Longrightarrow> chunk_mappings v c = Some m \<Longrightarrow>
     chunk_mappings (snd (remove_document_embeddings c d ids v)) c
       = Some (filter (\<lambda>x. x \<notin> set ids) m)"
proof -
  show "indexes (snd (remove_document_embeddings c d ids v)) = indexes v"
    by (auto simp: remove_document_embeddings_def Let_def split: option.splits)
  show "chunk_mappings (snd (remove_document_embeddings c d ids v)) c' = chunk_mappings v c'"
    if "c' \<noteq> c"
    using that by (auto simp: remove_document_embeddings_def Let_def split: option.splits)
  show "chunk_mappings (snd (remove_document_embeddings c d ids v)) c
       = Some (filter (\<lambda>x. x \<notin> set ids) m)"
    if "indexes v c = Some i" and "chunk_mappings v c = Some m"
    using that by (simp add: remove_document_embeddings_eq [OF that])
qed

lemma search_in_mapping:
  assumes "(x, score) \<in> set (search K v c q k)"
  shows "\<exists>i m. indexes v c = Some i \<and> chunk_mappings v c = Some m \<and> x \<in> set m"
proof (cases "indexes v c")
  case None
  then show ?thesis using assms by (simp add: search_def)
next
  case (Some i)
  note idx = this
  show ?thesis
  proof (cases "chunk_mappings v c")
    case None
    then show ?thesis using assms idx by (simp add: search_def)
  next
    case (Some m)
    have "set (convert_results m hits) \<subseteq> set m \<times> UNIV" for hits
      by (auto simp: convert_results_eq)
    then have "x \<in> set m"
      using assms idx Some
      by (auto simp: search_def split: option.splits if_splits)
    then show ?thesis using idx Some by simp
  qed
qed

lemma mapping_owned_constructed:
  "mapping_owned (ClassIsolationService session ifiles mfiles n)"
  by (simp add: mapping_owned_def ClassIsolationService_def VectorDatabase_def)

lemma mapping_owned_create:
  assumes "mapping_owned st"
  shows "mapping_owned (snd (create_class_collection c st))"
  using assms
  by (auto simp: mapping_owned_def create_class_collection_def create_class_index_def
      split: option.splits if_splits)

lemma assign_document_to_class_chunks:
  "document_chunks (db (snd (assign_document_to_class E K d c st))) = document_chunks (db st)"
  by (simp add: assign_document_to_class_db)

lemma assign_document_to_class_mono:
  "assigned (db st) d' c' \<Longrightarrow> assigned (db (snd (assign_document_to_class E K d c st))) d' c'"
  by (simp add: assign_document_to_class_db assigned_def)

lemma assign_document_to_class_vector_db:
  "vector_db (snd (assign_document_to_class E K d c st)) = vector_db st
   \<or> (assigned (db (snd (assign_document_to_class E K d c st))) d c
      \<and> (\<exists>e. vector_db (snd (assign_document_to_class E K d c st))
            = snd (save_index c (snd (add_embeddings K c e
                (map chunk_row_id (query_document_chunks (db st) d)) (vector_db st))))))"
proof (cases "query_document (db st) d \<noteq> None \<and> query_class (db st) c \<noteq> None
              \<and> \<not> assigned (db st) d c")
  case False
  then show ?thesis
    by (auto simp: assign_document_to_class_def split: option.splits)
next
  case True
  then have a: "assigned (db (snd (assign_document_to_class E K d c st))) d c"
    by (simp add: assign_document_to_class_db assigned_def)
  have q: "query_document_chunks ((db st)\<lparr>class_documents := cd\<rparr>) d
         = query_document_chunks (db st) d" for cd
    by (simp add: query_document_chunks_def)
  show ?thesis
    using True a
    by (auto simp: assign_document_to_class_def Let_def q split: option.splits)
qed

lemma mapping_owned_assign:
  assumes "mapping_owned st"
  shows "mapping_owned (snd (assign_document_to_class E K d c st))"
  unfolding mapping_owned_def
proof (intro allI impI ballI)
  fix c0 index m x
  let ?st' = "snd (assign_document_to_class E K d c st)"
  let ?ids = "map chunk_row_id (query_document_chunks (db st) d)"
  assume i: "indexes (vector_db ?st') c0 = Some index"
    and m: "chunk_mappings (vector_db ?st') c0 = Some m"
    and x: "x \<in> set m"
  have old: "\<exists>ch \<in> set (document_chunks (db ?st')).
               chunk_row_id ch = x \<and> assigned (db ?st') (chunk_document_id ch) c0"
    if h: "indexes (vector_db st) c0 = Some i0" "chunk_mappings (vector_db st) c0 = Some m0"
      "x \<in> set m0" for i0 m0
  proof -
    obtain ch where "ch \<in> set (document_chunks (db st))" "chunk_row_id ch = x"
      "assigned (db st) (chunk_document_id ch) c0"
      using assms h unfolding mapping_owned_def by blast
    then show ?thesis
      using assign_document_to_class_mono [of st _ c0 E K d c]
      by (auto simp: assign_document_to_class_chunks)
  qed
  consider (same) "vector_db ?st' = vector_db st"
    | (added) e where "assigned (db ?st') d c"
        "vector_db ?st' = snd (save_index c (snd (add_embeddings K c e ?ids (vector_db st))))"
    using assign_document_to_class_vector_db [of E K d c st] by blast
  then show "\<exists>ch \<in> set (document_chunks (db ?st')).
               chunk_row_id ch = x \<and> assigned (db ?st') (chunk_document_id ch) c0"
  proof cases
    case same
    then show ?thesis using i m x old by simp
  next
    case added
    show ?thesis
    proof (cases "c0 = c")
      case False
      then show ?thesis
        using i m x old added(2) by (simp add: save_index_maps add_embeddings_other)
    next
      case True
      have "x \<in> set ?ids
          \<or> (\<exists>i0 m0. indexes (vector_db st) c = Some i0
                \<and> chunk_mappings (vector_db st) c = Some m0 \<and> x \<in> set m0)"
        using i m x added(2) True
        by (intro add_embeddings_mapping [of K c e ?ids "vector_db st" m index])
           (simp_all add: save_index_maps)
      then show ?thesis
      proof
        assume "x \<in> set ?ids"
        then obtain ch where "ch \<in> set (document_chunks (db st))"
          "chunk_document_id ch = d" "chunk_row_id ch = x"
          by (auto simp: query_document_chunks_def)
        then show ?thesis
          using added(1) True by (auto simp: assign_document_to_class_chunks)
      next
        assume "\<exists>i0 m0. indexes (vector_db st) c = Some i0
                \<and> chunk_mappings (vector_db st) c = Some m0 \<and> x \<in> set m0"
        then show ?thesis using old True by blast
      qed
    qed
  qed
qed

lemma remove_document_from_class_vector_db:
  assumes "fst (remove_document_from_class d c st)"
  shows "vector_db (snd (remove_document_from_class d c st))
       = snd (save_index c (snd (remove_document_embeddings c d
           (map chunk_row_id (query_document_chunks (db st) d)) (vector_db st))))"
proof -
  have q: "query_document_chunks ((db st)\<lparr>class_documents := cd\<rparr>) d
         = query_document_chunks (db st) d" for cd
    by (simp add: query_document_chunks_def)
  show ?thesis
    using assms
    by (auto simp: remove_document_from_class_def Let_def q split: option.splits)
qed

lemma remove_document_from_class_unfound:
  assumes "\<not> fst (remove_document_from_class d c st)"
  shows "snd (remove_document_from_class d c st) = st"
  using assms
  by (auto simp: remove_document_from_class_def Let_def split: option.splits)

lemma remove_document_from_class_assigned:
  assumes "fst (remove_document_from_class d c st)"
  shows "assigned (db (snd (remove_document_from_class d c st))) d' c'
       = (assigned (db st) d' c' \<and> (c', d') \<noteq> (c, d))"
  using assms
  by (auto simp: remove_document_from_class_db remove_document_from_class_fst assigned_def)

lemma remove_document_from_class_chunks:
  "document_chunks (db (snd (remove_document_from_class d c st))) = document_chunks (db st)"
  by (simp add: remove_document_from_class_db)

lemma mapping_owned_remove:
  assumes "mapping_owned st"
  shows "mapping_owned (snd (remove_document_from_class d c st))"
proof (cases "fst (remove_document_from_class d c st)")
  case False
  then show ?thesis using assms by (simp add: remove_document_from_class_unfound)
next
  case True
  let ?st' = "snd (remove_document_from_class d c st)"
  let ?ids = "map chunk_row_id (query_document_chunks (db st) d)"
  have v: "vector_db ?st'
      = snd (save_index c (snd (remove_document_embeddings c d ?ids (vector_db st))))"
    by (rule remove_document_from_class_vector_db [OF True])
  show ?thesis
    unfolding mapping_owned_def
  proof (intro allI impI ballI)
    fix c0 index m x
    assume i: "indexes (vector_db ?st') c0 = Some index"
      and m: "chunk_mappings (vector_db ?st') c0 = Some m"
      and x: "x \<in> set m"
    have i0: "indexes (vector_db st) c0 = Some index"
      using i by (simp add: v save_index_maps remove_document_embeddings_maps)
    show "\<exists>ch \<in> set (document_chunks (db ?st')).
            chunk_row_id ch = x \<and> assigned (db ?st') (chunk_document_id ch) c0"
    proof (cases "c0 = c")
      case False
      then have "chunk_mappings (vector_db st) c0 = Some m"
        using m by (simp add: v save_index_maps remove_document_embeddings_maps)
      then obtain ch where "ch \<in> set (document_chunks (db st))" "chunk_row_id ch = x"
        "assigned (db st) (chunk_document_id ch) c0"
        using assms i0 x unfolding mapping_owned_def by blast
      then show ?thesis
        using False
        by (auto simp: remove_document_from_class_chunks
            remove_document_from_class_assigned [OF True])
    next
      case c: True
      show ?thesis
      proof (cases "chunk_mappings (vector_db st) c")
        case None
        then have "chunk_mappings (vector_db ?st') c = None"
          using i0 c
          by (simp add: v save_index_maps remove_document_embeddings_def)
        then show ?thesis using m c by simp
      next
        case (Some m0)
        then have "m = filter (\<lambda>x. x \<notin> set ?ids) m0"
          using m i0 c
          by (simp add: v save_index_maps remove_document_embeddings_maps(3) [of _ c index m0])
        then have x0: "x \<in> set m0" and xn: "x \<notin> set ?ids"
          using x by auto
        obtain ch where ch: "ch \<in> set (document_chunks (db st))" "chunk_row_id ch = x"
          "assigned (db st) (chunk_document_id ch) c"
          using assms i0 Some x0 c unfolding mapping_owned_def by blast
        have "chunk_document_id ch \<noteq> d"
          using ch(1,2) xn by (auto simp: query_document_chunks_def)
        then show ?thesis
          using ch c
          by (auto simp: remove_document_from_class_chunks
              remove_document_from_class_assigned [OF True])
      qed
    qed
  qed
qed

lemma reachable_mapping_owned:
  "reachable E K st \<Longrightarrow> mapping_owned st"
  by (induction rule: reachable.induct)
     (simp_all add: mapping_owned_constructed mapping_owned_create mapping_owned_assign
        mapping_owned_remove)

lemma distinct_key_unique:
  assumes "distinct (map f xs)" and "a \<in> set xs" and "b \<in> set xs" and "f a = f b"
  shows "a = b"
  using assms by (meson distinct_map inj_onD)

text \<open>
  Inside one service object the index and the assignments agree in one direction. In
  every state that one isolation service reaches from its
  construction by \<open>create_class_collection\<close>, \<open>assign_document_to_class\<close> and
  \<open>remove_document_from_class\<close>, with chunk ids a primary key: every chunk id that
  \<open>search\<close> returns for a class is the id of a stored chunk, and the document of that
  chunk is assigned to the class; and after a successful
  \<open>remove_document_from_class d c\<close> no search on the index of \<open>c\<close> returns the id
  of a chunk of \<open>d\<close>, for any query vector and any \<open>k\<close>.
\<close>

theorem search_returns_only_assigned:
  assumes "reachable E K st"
    and "distinct (map chunk_row_id (document_chunks (db st)))"
  shows "(\<forall>c q k x score. (x, score) \<in> set (search K (vector_db st) c q k) \<longrightarrow>
            (\<exists>ch \<in> set (document_chunks (db st)). chunk_row_id ch = x)
            \<and> (\<forall>ch \<in> set (document_chunks (db st)).
                  chunk_row_id ch = x \<longrightarrow> assigned (db st) (chunk_document_id ch) c))
       \<and> (\<forall>d c q k ch. fst (remove_document_from_class d c st) \<longrightarrow>
            ch \<in> set (document_chunks (db st)) \<longrightarrow> chunk_document_id ch = d \<longrightarrow>
            chunk_row_id ch
              \<notin> fst ` set (search K (vector_db (snd (remove_document_from_class d c st))) c q k))"
proof (intro conjI allI impI)
  fix c q k x score
  assume s: "(x, score) \<in> set (search K (vector_db st) c q k)"
  obtain i m where im: "indexes (vector_db st) c = Some i"
    "chunk_mappings (vector_db st) c = Some m" "x \<in> set m"
    using search_in_mapping [OF s] by blast
  have "mapping_owned st"
    by (rule reachable_mapping_owned [OF assms(1)])
  then obtain ch where ch: "ch \<in> set (document_chunks (db st))" "chunk_row_id ch = x"
    "assigned (db st) (chunk_document_id ch) c"
    using im unfolding mapping_owned_def by blast
  show "\<exists>ch \<in> set (document_chunks (db st)). chunk_row_id ch = x"
    using ch by blast
  show "\<forall>ch \<in> set (document_chunks (db st)).
          chunk_row_id ch = x \<longrightarrow> assigned (db st) (chunk_document_id ch) c"
  proof (intro ballI impI)
    fix ch'
    assume "ch' \<in> set (document_chunks (db st))" and "chunk_row_id ch' = x"
    then have "ch' = ch"
      using distinct_key_unique [OF assms(2), of ch' ch] ch by simp
    then show "assigned (db st) (chunk_document_id ch') c" using ch by simp
  qed
next
  fix d c q k ch
  let ?st' = "snd (remove_document_from_class d c st)"
  let ?ids = "map chunk_row_id (query_document_chunks (db st) d)"
  assume ok: "fst (remove_document_from_class d c st)"
    and ch: "ch \<in> set (document_chunks (db st))" "chunk_document_id ch = d"
  have v: "vector_db ?st'
      = snd (save_index c (snd (remove_document_embeddings c d ?ids (vector_db st))))"
    by (rule remove_document_from_class_vector_db [OF ok])
  have inids: "chunk_row_id ch \<in> set ?ids"
    using ch by (auto simp: query_document_chunks_def)
  show "chunk_row_id ch \<notin> fst ` set (search K (vector_db ?st') c q k)"
  proof
    assume "chunk_row_id ch \<in> fst ` set (search K (vector_db ?st') c q k)"
    then obtain score where sc:
      "(chunk_row_id ch, score) \<in> set (search K (vector_db ?st') c q k)"
      by auto
    obtain i m where im: "indexes (vector_db ?st') c = Some i"
      "chunk_mappings (vector_db ?st') c = Some m" "chunk_row_id ch \<in> set m"
      using search_in_mapping [OF sc] by blast
    have i0: "indexes (vector_db st) c = Some i"
      using im(1) by (simp add: v save_index_maps remove_document_embeddings_maps)
    show False
    proof (cases "chunk_mappings (vector_db st) c")
      case None
      then have "chunk_mappings (vector_db ?st') c = None"
        using i0 by (simp add: v save_index_maps remove_document_embeddings_def)
      then show False using im(2) by simp
    next
      case (Some m0)
      then have "m = filter (\<lambda>x. x \<notin> set ?ids) m0"
        using im(2) i0
        by (simp add: v save_index_maps remove_document_embeddings_maps(3) [of _ c i m0])
      then show False using im(3) inids by simp
    qed
  qed
qed

lemma sample_assigned_reachable:
  "reachable (length_embedder []) (basis_kernel 384) sample_assigned"
  unfolding sample_assigned_def sample_service_def
  by (intro reachable.assigned_to reachable.constructed)

lemma sample_chunks_distinct:
  "distinct (map chunk_row_id (document_chunks (db sample_assigned)))"
  by (simp add: sample_assigned_db sample_data_def)

lemma sample_assigned_search:
  "search (basis_kernel 384) (vector_db sample_assigned) ''class1'' 12 5 = [(''chunk1'', 1)]"
  using sample_assigned_vector_db
  by (simp add: search_def ntotal_def faiss_search_def basis_kernel_def enumerate_eq_zip)

theorem search_returns_only_assigned_witness:
  "reachable (length_embedder []) (basis_kernel 384) sample_assigned
   \<and> distinct (map chunk_row_id (document_chunks (db sample_assigned)))
   \<and> search (basis_kernel 384) (vector_db sample_assigned) ''class1'' 12 5 = [(''chunk1'', 1)]
   \<and> assigned (db sample_assigned) ''doc1'' ''class1''
   \<and> fst (remove_document_from_class ''doc1'' ''class1'' sample_assigned)
   \<and> ''chunk1'' \<notin> fst ` set (search (basis_kernel 384)
        (vector_db (snd (remove_document_from_class ''doc1'' ''class1'' sample_assigned)))
        ''class1'' 12 5)"
proof -
  let ?ch = "\<lparr>chunk_row_id = ''chunk1'', chunk_document_id = ''doc1'',
              chunk_content = ''Math content'', chunk_page_number = None,
              chunk_section = None\<rparr>"
  have ch: "?ch \<in> set (document_chunks (db sample_assigned))"
    by (simp add: sample_assigned_db sample_data_def)
  have ok: "fst (remove_document_from_class ''doc1'' ''class1'' sample_assigned)"
    by (simp add: remove_document_from_class_fst sample_assigned_db sample_data_def
        query_document_def query_class_def)
  have hit: "(''chunk1'', 1) \<in> set (search (basis_kernel 384) (vector_db sample_assigned)
                                       ''class1'' 12 5)"
    by (simp add: sample_assigned_search)
  note inst = search_returns_only_assigned [OF sample_assigned_reachable sample_chunks_distinct]
  have a: "assigned (db sample_assigned) (chunk_document_id ?ch) ''class1''"
    using inst hit ch by (metis chunk_row.select_convs(1))
  have r: "chunk_row_id ?ch \<notin> fst ` set (search (basis_kernel 384)
        (vector_db (snd (remove_document_from_class ''doc1'' ''class1'' sample_assigned)))
        ''class1'' 12 5)"
    using inst ok ch by (metis chunk_row.select_convs(2))
  show ?thesis
    using sample_assigned_reachable sample_chunks_distinct sample_assigned_search a r ok
    by simp
qed

lemma sample_recreated_facts:
  "db sample_recreated = sample_data\<lparr>class_documents := [(''class1'', ''doc1'')]\<rparr>"
  "indexes (vector_db sample_recreated) ''class1'' = Some \<lparr>index_d = 384, index_xb = []\<rparr>"
  by (simp_all add: sample_recreated_def create_class_collection_def sample_assigned_db
      sample_data_def query_class_def create_class_index_def IndexFlatIP_def
      sample_assigned_def assign_document_to_class_def sample_service_def
      ClassIsolationService_def query_document_def assigned_def
      query_document_chunks_def length_embedder_def add_embeddings_def
      VectorDatabase_def faiss_add_def basis_kernel_def save_index_def Let_def)

theorem assigned_but_not_retrievable:
  "\<not> (\<forall>st d c ch.
        reachable (length_embedder []) (basis_kernel 384) st \<longrightarrow>
        ch \<in> set (document_chunks (db st)) \<longrightarrow> chunk_document_id ch = d \<longrightarrow>
        ((\<exists>q k score. (chunk_row_id ch, score)
                          \<in> set (search (basis_kernel 384) (vector_db st) c q k))
         \<longleftrightarrow> assigned (db st) d c))"
proof
  let ?ch = "\<lparr>chunk_row_id = ''chunk1'', chunk_document_id = ''doc1'',
              chunk_content = ''Math content'', chunk_page_number = None,
              chunk_section = None\<rparr>"
  assume all: "\<forall>st d c ch.
        reachable (length_embedder []) (basis_kernel 384) st \<longrightarrow>
        ch \<in> set (document_chunks (db st)) \<longrightarrow> chunk_document_id ch = d \<longrightarrow>
        ((\<exists>q k score. (chunk_row_id ch, score)
                          \<in> set (search (basis_kernel 384) (vector_db st) c q k))
         \<longleftrightarrow> assigned (db st) d c)"
  have r: "reachable (length_embedder []) (basis_kernel 384) sample_recreated"
    unfolding sample_recreated_def
    by (intro reachable.created sample_assigned_reachable)
  have ch: "?ch \<in> set (document_chunks (db sample_recreated))"
    by (simp add: sample_recreated_facts sample_data_def)
  have a: "assigned (db sample_recreated) ''doc1'' ''class1''"
    by (simp add: sample_recreated_facts assigned_def)
  have e: "search (basis_kernel 384) (vector_db sample_recreated) ''class1'' q k = []" for q k
    using sample_recreated_facts(2)
    by (simp add: search_def ntotal_def split: option.splits)
  have "\<exists>q k score. (chunk_row_id ?ch, score)
          \<in> set (search (basis_kernel 384) (vector_db sample_recreated) ''class1'' q k)"
    using all r ch a by (metis chunk_row.select_convs(2))
  then show False by (simp add: e)
qed

subsection \<open>Removal and query in separate requests\<close>

lemma sample_assigned_files:
  "index_files (vector_db sample_assigned) = [''class1'' \<mapsto> \<lparr>index_d = 384, index_xb = [12]\<rparr>]"
  "mapping_files (vector_db sample_assigned) = [''class1'' \<mapsto> Some [''chunk1'']]"
  "embed_calls sample_assigned = 1"
  by (simp_all add: sample_assigned_def assign_document_to_class_def sample_service_def
      ClassIsolationService_def sample_data_def query_document_def query_class_def assigned_def
      query_document_chunks_def length_embedder_def add_embeddings_def create_class_index_def
      VectorDatabase_def IndexFlatIP_def faiss_add_def basis_kernel_def save_index_def Let_def)

lemma removal_request_removes:
  "fst (remove_document_from_class ''doc1'' ''class1'' removal_request)"
  by (simp add: remove_document_from_class_fst removal_request_def ClassIsolationService_def
      sample_assigned_db sample_data_def query_document_def query_class_def)

lemma after_removal_state:
  "db after_removal = sample_data"
  "index_files (vector_db after_removal) = [''class1'' \<mapsto> \<lparr>index_d = 384, index_xb = [12]\<rparr>]"
  "mapping_files (vector_db after_removal) = [''class1'' \<mapsto> Some [''chunk1'']]"
  by (simp_all add: after_removal_def remove_document_from_class_def removal_request_def
      ClassIsolationService_def sample_assigned_db sample_assigned_files sample_data_def
      query_document_def query_class_def assigned_def query_document_chunks_def
      remove_document_embeddings_def save_index_def VectorDatabase_def Let_def)

lemma query_request_state:
  "indexes (rag_vector_db query_request) ''class1'' = Some \<lparr>index_d = 384, index_xb = [12]\<rparr>"
  "chunk_mappings (rag_vector_db query_request) ''class1'' = Some [''chunk1'']"
  "rag_db query_request = sample_data"
  "similarity_threshold query_request = 7 / 10"
  "max_chunks query_request = 5"
  by (simp_all add: query_request_def RAGService_def after_removal_state
      load_existing_indexes_def load_index_def VectorDatabase_def sample_data_def)

lemma query_request_search:
  "search (basis_kernel 384) (rag_vector_db query_request) ''class1'' 12 10 = [(''chunk1'', 1)]"
  by (simp add: search_def query_request_state ntotal_def faiss_search_def basis_kernel_def
      enumerate_eq_zip)

text \<open>
  Claim C1 (violated by the code). The isolation service of a request starts with an
  empty \<open>VectorDatabase\<close> and never loads the saved indexes. So when \<open>doc1\<close>
  is removed from \<open>class1\<close> by a new service, \<open>remove_document_from_class\<close>
  returns \<open>True\<close> and the assignment is gone, but the saved index and mapping of
  \<open>class1\<close> are untouched; the query service built afterwards loads them, and its
  search for the class still returns \<open>chunk1\<close> of \<open>doc1\<close>, which passes the
  threshold and is retained.
\<close>

theorem removal_by_new_service_leaves_chunk_retrievable:
  "fst (remove_document_from_class ''doc1'' ''class1'' removal_request)
   \<and> \<not> assigned (db after_removal) ''doc1'' ''class1''
   \<and> search (basis_kernel 384) (rag_vector_db query_request) ''class1'' 12 10
       = [(''chunk1'', 1)]
   \<and> map (\<lambda>x. (chunk_row_id (fst x), chunk_document_id (fst x), snd x))
        (search_relevant_chunks (basis_kernel 384) query_request ''class1'' 12)
       = [(''chunk1'', ''doc1'', 1)]"
  using removal_request_removes query_request_search
  by (simp add: after_removal_state assigned_def sample_data_def search_relevant_chunks_def
      query_request_state query_chunk_def)

subsection \<open>Migration\<close>

lemma assign_document_to_class_queries:
  "query_document (db (snd (assign_document_to_class E K d c st))) x = query_document (db st) x"
  "query_class (db (snd (assign_document_to_class E K d c st))) y = query_class (db st) y"
  by (simp_all add: assign_document_to_class_db query_document_def query_class_def)

lemma remove_document_from_class_queries:
  "query_document (db (snd (remove_document_from_class d c st))) x = query_document (db st) x"
  "query_class (db (snd (remove_document_from_class d c st))) y = query_class (db st) y"
  by (simp_all add: remove_document_from_class_db query_document_def query_class_def)

lemma assign_document_to_class_assigned:
  "assigned (db (snd (assign_document_to_class E K d c st))) d' c'
     = (assigned (db st) d' c'
        \<or> (d' = d \<and> c' = c \<and> query_document (db st) d \<noteq> None
              \<and> query_class (db st) c \<noteq> None))"
  by (auto simp: assign_document_to_class_db assigned_def)

lemma remove_document_from_class_assigned_iff:
  "assigned (db (snd (remove_document_from_class d c st))) d' c'
     = (assigned (db st) d' c'
        \<and> \<not> (d' = d \<and> c' = c \<and> query_document (db st) d \<noteq> None
                \<and> query_class (db st) c \<noteq> None))"
  by (auto simp: remove_document_from_class_db assigned_def)

lemma migrate_document_failed_branch:
  assumes "fst (remove_document_from_class (document_row_id doc) f st)"
    and "\<not> fst (assign_document_to_class E K (document_row_id doc) t
                 (snd (remove_document_from_class (document_row_id doc) f st)))"
  shows "migrate_document E K f t doc (results, st)
       = (results\<lparr>failed := failed results @ [document_row_id doc]\<rparr>,
          snd (assign_document_to_class E K (document_row_id doc) f
                (snd (assign_document_to_class E K (document_row_id doc) t
                       (snd (remove_document_from_class (document_row_id doc) f st))))))"
  using assms by (simp add: migrate_document_def case_prod_unfold)

lemma compensated_assigned:
  assumes "fst (remove_document_from_class d f st)"
  shows "assigned (db (snd (assign_document_to_class E K d f
            (snd (assign_document_to_class E K d t
                   (snd (remove_document_from_class d f st))))))) d f"
  using assms
  by (simp add: assign_document_to_class_assigned assign_document_to_class_queries
      remove_document_from_class_queries remove_document_from_class_fst)

lemma migrate_document_queries:
  "query_document (db (snd (migrate_document E K f t doc rs))) x = query_document (db (snd rs)) x"
  "query_class (db (snd (migrate_document E K f t doc rs))) y = query_class (db (snd rs)) y"
  by (simp_all add: migrate_document_def case_prod_unfold Let_def
      assign_document_to_class_queries remove_document_from_class_queries)

lemma migrate_document_other:
  assumes "d' \<noteq> document_row_id doc"
  shows "assigned (db (snd (migrate_document E K f t doc rs))) d' c'
       = assigned (db (snd rs)) d' c'"
  using assms
  by (simp add: migrate_document_def case_prod_unfold Let_def
      assign_document_to_class_assigned remove_document_from_class_assigned_iff)

lemma migrate_document_failed:
  assumes "query_document (db (snd rs)) (document_row_id doc) \<noteq> None"
    and "query_class (db (snd rs)) f \<noteq> None"
  shows "failed (fst (migrate_document E K f t doc rs)) = failed (fst rs)
       \<or> (failed (fst (migrate_document E K f t doc rs))
             = failed (fst rs) @ [document_row_id doc]
          \<and> assigned (db (snd (migrate_document E K f t doc rs))) (document_row_id doc) f)"
proof -
  obtain results st where rs: "rs = (results, st)" by (cases rs)
  have ok: "fst (remove_document_from_class (document_row_id doc) f st)"
    using assms by (simp add: rs remove_document_from_class_fst)
  show ?thesis
  proof (cases "fst (assign_document_to_class E K (document_row_id doc) t
                       (snd (remove_document_from_class (document_row_id doc) f st)))")
    case True
    then show ?thesis
      using ok by (simp add: rs migrate_document_def case_prod_unfold)
  next
    case False
    show ?thesis
      using compensated_assigned [OF ok, of E K t]
      by (simp add: rs migrate_document_failed_branch [OF ok False])
  qed
qed

lemma migrate_loop_queries:
  "query_document (db (snd (migrate_loop E K f t docs rs))) x = query_document (db (snd rs)) x"
  "query_class (db (snd (migrate_loop E K f t docs rs))) y = query_class (db (snd rs)) y"
  by (induction docs arbitrary: rs) (simp_all add: migrate_document_queries)

lemma migrate_loop_other:
  assumes "d' \<notin> document_row_id ` set docs"
  shows "assigned (db (snd (migrate_loop E K f t docs rs))) d' c' = assigned (db (snd rs)) d' c'"
  using assms
  by (induction docs arbitrary: rs) (simp_all add: migrate_document_other)

lemma migrate_loop_failed:
  assumes "distinct (map document_row_id docs)"
    and "\<forall>doc \<in> set docs. query_document (db (snd rs)) (document_row_id doc) \<noteq> None"
    and "query_class (db (snd rs)) f \<noteq> None"
    and "d \<in> set (failed (fst (migrate_loop E K f t docs rs)))"
  shows "d \<in> set (failed (fst rs))
       \<or> assigned (db (snd (migrate_loop E K f t docs rs))) d f"
  using assms
proof (induction docs arbitrary: rs)
  case Nil
  then show ?case by simp
next
  case (Cons doc docs)
  let ?rs1 = "migrate_document E K f t doc rs"
  have pre: "\<forall>x \<in> set docs. query_document (db (snd ?rs1)) (document_row_id x) \<noteq> None"
    "query_class (db (snd ?rs1)) f \<noteq> None"
    using Cons.prems(2,3) by (simp_all add: migrate_document_queries)
  have dist: "distinct (map document_row_id docs)"
    and fresh: "document_row_id doc \<notin> document_row_id ` set docs"
    using Cons.prems(1) by simp_all
  have "d \<in> set (failed (fst ?rs1))
      \<or> assigned (db (snd (migrate_loop E K f t docs ?rs1))) d f"
    using Cons.IH [OF dist pre] Cons.prems(4) by simp
  then show ?case
  proof
    assume d1: "d \<in> set (failed (fst ?rs1))"
    have "failed (fst ?rs1) = failed (fst rs)
        \<or> (failed (fst ?rs1) = failed (fst rs) @ [document_row_id doc]
           \<and> assigned (db (snd ?rs1)) (document_row_id doc) f)"
      using Cons.prems(2,3) by (intro migrate_document_failed) simp_all
    then consider "d \<in> set (failed (fst rs))"
      | "d = document_row_id doc" "assigned (db (snd ?rs1)) (document_row_id doc) f"
      using d1 by auto
    then show ?thesis
    proof cases
      case 1
      then show ?thesis by simp
    next
      case 2
      then show ?thesis
        using fresh by (simp add: migrate_loop_other)
    qed
  next
    assume "assigned (db (snd (migrate_loop E K f t docs ?rs1))) d f"
    then show ?thesis by simp
  qed
qed

lemma class_documents_of_found:
  assumes "doc \<in> set (class_documents_of session c)"
  shows "query_document session (document_row_id doc) \<noteq> None"
  using assms
  by (auto simp: class_documents_of_def query_document_def find_None_iff)

text \<open>
  Claim C7. In one step of the migration loop, when the removal from the source class succeeds
  and the assignment to the destination class fails, the document id is appended to the
  \<open>failed\<close> list (and not to \<open>migrated\<close>), the compensating
  \<open>assign_document_to_class\<close> to the source class is run, and the document is
  assigned to the source class afterwards. For the whole migration, with document ids a
  primary key: every document reported in \<open>failed\<close> is assigned to the source class
  in the final state.
\<close>

theorem migration_compensation:
  fixes E :: "'v embedder" and st :: "'v isolation_service"
  assumes "distinct (map document_row_id (documents (db st)))"
  shows "(\<forall>doc results s.
            fst (remove_document_from_class (document_row_id doc) f s) \<longrightarrow>
            \<not> fst (assign_document_to_class E K (document_row_id doc) t
                     (snd (remove_document_from_class (document_row_id doc) f s))) \<longrightarrow>
            failed (fst (migrate_document E K f t doc (results, s)))
              = failed results @ [document_row_id doc]
            \<and> migrated (fst (migrate_document E K f t doc (results, s))) = migrated results
            \<and> snd (migrate_document E K f t doc (results, s))
              = snd (assign_document_to_class E K (document_row_id doc) f
                      (snd (assign_document_to_class E K (document_row_id doc) t
                             (snd (remove_document_from_class (document_row_id doc) f s)))))
            \<and> assigned (db (snd (migrate_document E K f t doc (results, s))))
                 (document_row_id doc) f)
       \<and> (\<forall>results st'.
            migrate_class_documents E K f t st = (Inr results, st') \<longrightarrow>
            (\<forall>d \<in> set (failed results). assigned (db st') d f))"
proof (intro conjI allI impI ballI)
  fix doc :: document_row and results :: migration_results and s :: "'v isolation_service"
  assume ok: "fst (remove_document_from_class (document_row_id doc) f s)"
    and no: "\<not> fst (assign_document_to_class E K (document_row_id doc) t
                     (snd (remove_document_from_class (document_row_id doc) f s)))"
  note eq = migrate_document_failed_branch [OF ok no, of results]
  show "failed (fst (migrate_document E K f t doc (results, s)))
          = failed results @ [document_row_id doc]"
    by (simp add: eq)
  show "migrated (fst (migrate_document E K f t doc (results, s))) = migrated results"
    by (simp add: eq)
  show "snd (migrate_document E K f t doc (results, s))
          = snd (assign_document_to_class E K (document_row_id doc) f
                  (snd (assign_document_to_class E K (document_row_id doc) t
                         (snd (remove_document_from_class (document_row_id doc) f s)))))"
    by (simp add: eq)
  show "assigned (db (snd (migrate_document E K f t doc (results, s)))) (document_row_id doc) f"
    using compensated_assigned [OF ok, of E K t] by (simp add: eq)
next
  fix results :: migration_results and st' :: "'v isolation_service" and d :: document_id
  assume run: "migrate_class_documents E K f t st = (Inr results, st')"
    and d: "d \<in> set (failed results)"
  let ?docs = "class_documents_of (db st) f"
  let ?rs0 = "(\<lparr>migrated = [], failed = [], total = length ?docs\<rparr>, st)"
  have found: "query_class (db st) f \<noteq> None"
    and res: "(results, st') = migrate_loop E K f t ?docs ?rs0"
    using run
    by (auto simp: migrate_class_documents_def Let_def case_prod_unfold split: option.splits)
  have dist: "distinct (map document_row_id ?docs)"
    using assms by (simp add: class_documents_of_def distinct_map_filter)
  have ex: "\<forall>doc \<in> set ?docs. query_document (db (snd ?rs0)) (document_row_id doc) \<noteq> None"
    using class_documents_of_found by auto
  have r1: "fst (migrate_loop E K f t ?docs ?rs0) = results"
    and r2: "snd (migrate_loop E K f t ?docs ?rs0) = st'"
    using res by (metis fst_conv, metis snd_conv)
  have f0: "query_class (db (snd ?rs0)) f \<noteq> None"
    using found by simp
  have d0: "d \<in> set (failed (fst (migrate_loop E K f t ?docs ?rs0)))"
    using d by (simp only: r1)
  have "d \<in> set (failed (fst ?rs0))
      \<or> assigned (db (snd (migrate_loop E K f t ?docs ?rs0))) d f"
    by (rule migrate_loop_failed [OF dist ex f0 d0])
  then show "assigned (db st') d f"
    by (simp add: r2)
qed

lemmas sample_migration_defs =
  sample_assigned_def assign_document_to_class_def sample_service_def
  ClassIsolationService_def sample_data_def query_document_def query_class_def assigned_def
  query_document_chunks_def length_embedder_def add_embeddings_def create_class_index_def
  VectorDatabase_def IndexFlatIP_def faiss_add_def basis_kernel_def save_index_def Let_def
  remove_document_from_class_def remove_document_embeddings_def migrate_class_documents_def
  migrate_document_def class_documents_of_def

lemma sample_migration_result:
  "fst (migrate_class_documents (length_embedder [1]) (basis_kernel 384) ''class1'' ''class2''
          sample_assigned) = Inr \<lparr>migrated = [], failed = [''doc1''], total = 1\<rparr>"
  by (simp add: sample_migration_defs)

lemma sample_migration_assign_fails:
  "\<not> fst (assign_document_to_class (length_embedder [1]) (basis_kernel 384) ''doc1'' ''class2''
          (snd (remove_document_from_class ''doc1'' ''class1'' sample_assigned)))"
  by (simp add: sample_migration_defs)

theorem migration_compensation_witness:
  "distinct (map document_row_id (documents (db sample_assigned)))
   \<and> fst (remove_document_from_class ''doc1'' ''class1'' sample_assigned)
   \<and> \<not> fst (assign_document_to_class (length_embedder [1]) (basis_kernel 384) ''doc1'' ''class2''
              (snd (remove_document_from_class ''doc1'' ''class1'' sample_assigned)))
   \<and> fst (migrate_class_documents (length_embedder [1]) (basis_kernel 384) ''class1'' ''class2''
          sample_assigned) = Inr \<lparr>migrated = [], failed = [''doc1''], total = 1\<rparr>
   \<and> assigned (db (snd (migrate_class_documents (length_embedder [1]) (basis_kernel 384)
                          ''class1'' ''class2'' sample_assigned))) ''doc1'' ''class1''"
proof -
  let ?run = "migrate_class_documents (length_embedder [1]) (basis_kernel 384)
                ''class1'' ''class2'' sample_assigned"
  have dist: "distinct (map document_row_id (documents (db sample_assigned)))"
    by (simp add: sample_assigned_db sample_data_def)
  have ok: "fst (remove_document_from_class ''doc1'' ''class1'' sample_assigned)"
    by (simp add: remove_document_from_class_fst sample_assigned_db sample_data_def
        query_document_def query_class_def)
  have run: "?run = (Inr \<lparr>migrated = [], failed = [''doc1''], total = 1\<rparr>, snd ?run)"
    using sample_migration_result by (metis prod.collapse)
  have "assigned (db (snd ?run)) ''doc1'' ''class1''"
    using migration_compensation
            [OF dist, of "''class1''" "(length_embedder [1])" "(basis_kernel 384)" "''class2''"]
          run
    by (metis list.set_intros(1) migration_results.select_convs(2))
  then show ?thesis
    using dist ok sample_migration_assign_fails sample_migration_result by simp
qed

section \<open>Properties of the query service\<close>

lemma search_length: "length (search K s c q k) \<le> k"
proof (cases "indexes s c")
  case None
  then show ?thesis by (simp add: search_def)
next
  case (Some index)
  note i = this
  show ?thesis
  proof (cases "chunk_mappings s c")
    case None
    then show ?thesis using i by (simp add: search_def)
  next
    case (Some m)
    show ?thesis
    proof (cases "faiss_search K index (normalise K q) (min k (ntotal index))")
      case None
      then show ?thesis using i Some by (simp add: search_def)
    next
      case (Some hits)
      have "length (convert_results m hits) \<le> length hits"
        by (simp add: convert_results_eq)
      moreover have "length hits \<le> min k (ntotal index)"
        by (rule faiss_search_hits(1) [OF Some])
      ultimately show ?thesis
        using i \<open>chunk_mappings s c = Some m\<close> Some by (simp add: search_def)
    qed
  qed
qed

lemma collect_relevant_eq:
  "collect_relevant session thr cands
   = map (\<lambda>(cid, s). (the (query_chunk session cid), s))
       (filter (\<lambda>(cid, s). thr \<le> s \<and> query_chunk session cid \<noteq> None) cands)"
  by (induction session thr cands rule: collect_relevant.induct) (auto split: option.splits)

lemma search_relevant_chunks_eq:
  "search_relevant_chunks K svc c q
   = take (max_chunks svc) (sort_key (\<lambda>x. - snd x)
       (collect_relevant (rag_db svc) (similarity_threshold svc)
          (search K (rag_vector_db svc) c q (max_chunks svc * 2))))"
  by (simp add: search_relevant_chunks_def Let_def)

lemma take_sorted_top:
  fixes xs :: "('a \<times> rat) list"
  assumes "x \<in># mset xs - mset (take n (sort_key (\<lambda>x. - snd x) xs))"
    and "y \<in> set (take n (sort_key (\<lambda>x. - snd x) xs))"
  shows "snd x \<le> snd y"
proof -
  let ?s = "sort_key (\<lambda>x. - snd x) xs"
  have "mset xs = mset (take n ?s) + mset (drop n ?s)"
    by (metis append_take_drop_id mset_append mset_sort)
  then have "x \<in> set (drop n ?s)"
    using assms(1) by simp
  moreover have "sorted (map (\<lambda>x. - snd x) (take n ?s @ drop n ?s))"
    by simp
  ultimately have "- snd y \<le> - snd x"
    using assms(2) unfolding map_append sorted_append by auto
  then show ?thesis by simp
qed

text \<open>
  Claim C5, as amended. The candidates are the results of a search for twice
  \<open>max_chunks\<close> hits, so at most that many. Exactly the candidates whose score
  reaches the threshold and whose chunk id has a row in the chunk table are retained;
  the result is these, sorted by descending score (stably) and cut to the first
  \<open>max_chunks\<close>: it is sorted, has the length of the retained list capped at
  \<open>max_chunks\<close>, and every retained candidate that was cut scores no more than any
  that was kept.
\<close>

theorem threshold_filter_and_rank:
  assumes "cands = search K (rag_vector_db svc) c q (max_chunks svc * 2)"
    and "retained = map (\<lambda>(cid, s). (the (query_chunk (rag_db svc) cid), s))
           (filter (\<lambda>(cid, s). similarity_threshold svc \<le> s
                                \<and> query_chunk (rag_db svc) cid \<noteq> None) cands)"
  shows "length cands \<le> max_chunks svc * 2
       \<and> search_relevant_chunks K svc c q
           = take (max_chunks svc) (sort_key (\<lambda>x. - snd x) retained)
       \<and> sorted_wrt (\<lambda>x y. snd y \<le> snd x) (search_relevant_chunks K svc c q)
       \<and> length (search_relevant_chunks K svc c q) = min (max_chunks svc) (length retained)
       \<and> (\<forall>x y. x \<in># mset retained - mset (search_relevant_chunks K svc c q) \<longrightarrow>
                  y \<in> set (search_relevant_chunks K svc c q) \<longrightarrow> snd x \<le> snd y)"
proof -
  let ?res = "search_relevant_chunks K svc c q"
  have len: "length cands \<le> max_chunks svc * 2"
    by (simp add: assms(1) search_length)
  have eq: "?res = take (max_chunks svc) (sort_key (\<lambda>x. - snd x) retained)"
    by (simp add: search_relevant_chunks_eq collect_relevant_eq assms)
  have "sorted (map (\<lambda>x. - snd x) (sort_key (\<lambda>x. - snd x) retained))"
    by simp
  then have "sorted_wrt (\<lambda>x y. snd y \<le> snd x) (sort_key (\<lambda>x. - snd x) retained)"
    by (simp add: sorted_wrt_map)
  then have srt: "sorted_wrt (\<lambda>x y. snd y \<le> snd x) ?res"
    unfolding eq by (rule sorted_wrt_take)
  have ln: "length ?res = min (max_chunks svc) (length retained)"
    by (simp add: eq min.commute)
  have top: "\<forall>x y. x \<in># mset retained - mset ?res \<longrightarrow> y \<in> set ?res \<longrightarrow> snd x \<le> snd y"
    unfolding eq using take_sorted_top by blast
  show ?thesis using len eq srt ln top by blast
qed

lemma four_chunks_service_state:
  "indexes (rag_vector_db four_chunks_service) ''c''
     = Some \<lparr>index_d = 1, index_xb = [9 / 10, 3 / 4, 13 / 20, 1 / 2]\<rparr>"
  "chunk_mappings (rag_vector_db four_chunks_service) ''c''
     = Some [''k1'', ''k2'', ''k3'', ''k4'']"
  "rag_db four_chunks_service = four_chunks_data"
  "similarity_threshold four_chunks_service = 7 / 10"
  "max_chunks four_chunks_service = 5"
  by (simp_all add: four_chunks_service_def RAGService_def load_existing_indexes_def
      load_index_def VectorDatabase_def four_chunks_data_def)

lemma four_chunks_search:
  "search scalar_kernel (rag_vector_db four_chunks_service) ''c'' 1 10
     = [(''k1'', 9 / 10), (''k2'', 3 / 4), (''k3'', 13 / 20), (''k4'', 1 / 2)]"
  by (simp add: search_def four_chunks_service_state ntotal_def faiss_search_def
      scalar_kernel_def enumerate_eq_zip upt_rec)

theorem threshold_filter_and_rank_witness:
  "search scalar_kernel (rag_vector_db four_chunks_service) ''c'' 1
       (max_chunks four_chunks_service * 2)
     = [(''k1'', 9 / 10), (''k2'', 3 / 4), (''k3'', 13 / 20), (''k4'', 1 / 2)]
   \<and> similarity_threshold four_chunks_service = 7 / 10
   \<and> max_chunks four_chunks_service = 5
   \<and> map (\<lambda>x. (chunk_row_id (fst x), snd x))
        (search_relevant_chunks scalar_kernel four_chunks_service ''c'' 1)
     = [(''k1'', 9 / 10), (''k2'', 3 / 4)]"
  using threshold_filter_and_rank [OF refl refl, of scalar_kernel four_chunks_service "''c''" 1]
        four_chunks_search
  by (simp add: four_chunks_service_state four_chunks_data_def query_chunk_def)

lemma ghost_service_state:
  "indexes (rag_vector_db ghost_service) ''c'' = Some \<lparr>index_d = 1, index_xb = [9 / 10]\<rparr>"
  "chunk_mappings (rag_vector_db ghost_service) ''c'' = Some [''ghost'']"
  "document_chunks (rag_db ghost_service) = []"
  "similarity_threshold ghost_service = 7 / 10"
  "max_chunks ghost_service = 5"
  by (simp_all add: ghost_service_def RAGService_def load_existing_indexes_def
      load_index_def VectorDatabase_def four_chunks_data_def)

theorem candidate_without_chunk_row_dropped:
  "\<not> (\<forall>svc c q.
        map snd (search_relevant_chunks scalar_kernel svc c q)
        = take (max_chunks svc) (rev (sort
            (filter (\<lambda>s. similarity_threshold svc \<le> s)
               (map snd (search scalar_kernel (rag_vector_db svc) c q (max_chunks svc * 2)))))))"
proof
  assume "\<forall>svc c q.
        map snd (search_relevant_chunks scalar_kernel svc c q)
        = take (max_chunks svc) (rev (sort
            (filter (\<lambda>s. similarity_threshold svc \<le> s)
               (map snd (search scalar_kernel (rag_vector_db svc) c q (max_chunks svc * 2))))))"
  then have "map snd (search_relevant_chunks scalar_kernel ghost_service ''c'' 1)
        = take (max_chunks ghost_service) (rev (sort
            (filter (\<lambda>s. similarity_threshold ghost_service \<le> s)
               (map snd (search scalar_kernel (rag_vector_db ghost_service) ''c'' 1
                           (max_chunks ghost_service * 2))))))"
    by blast
  moreover have "search scalar_kernel (rag_vector_db ghost_service) ''c'' 1 10
      = [(''ghost'', 9 / 10)]"
    by (simp add: search_def ghost_service_state ntotal_def faiss_search_def
        scalar_kernel_def enumerate_eq_zip)
  moreover have "search_relevant_chunks scalar_kernel ghost_service ''c'' 1 = []"
    using calculation(2)
    by (simp add: search_relevant_chunks_def ghost_service_state query_chunk_def)
  ultimately show False
    by (simp add: ghost_service_state)
qed

text \<open>
  Claim C6. For a class that exists, when the service has no index for it, or an empty one, or
  when no search candidate reaches the similarity threshold, \<open>process_query\<close> returns
  the no-results response: the fixed refusal text, confidence 0, no citations, no used
  documents, \<open>success = True\<close> and no error.
\<close>

theorem process_query_no_results:
  assumes "query_class (rag_db svc) c = Some class_obj"
    and "indexes (rag_vector_db svc) c = None
       \<or> (\<exists>index. indexes (rag_vector_db svc) c = Some index \<and> ntotal index = 0)
       \<or> (\<forall>x \<in> set (search K (rag_vector_db svc) c (Q query) (max_chunks svc * 2)).
             snd x < similarity_threshold svc)"
  shows "process_query Q K A svc query c student elapsed = create_no_results_response elapsed
       \<and> answer (process_query Q K A svc query c student elapsed)
           = ''I can't find this in the school materials. Please make sure your question relates to the course content provided by your teacher.''
       \<and> confidence (process_query Q K A svc query c student elapsed) = 0
       \<and> citations (process_query Q K A svc query c student elapsed) = []
       \<and> used_documents (process_query Q K A svc query c student elapsed) = []
       \<and> success (process_query Q K A svc query c student elapsed)
       \<and> error (process_query Q K A svc query c student elapsed) = None"
proof -
  let ?cands = "search K (rag_vector_db svc) c (Q query) (max_chunks svc * 2)"
  have "collect_relevant (rag_db svc) (similarity_threshold svc) ?cands = []"
    using assms(2)
  proof (elim disjE exE conjE)
    assume "indexes (rag_vector_db svc) c = None"
    then show ?thesis by (simp add: search_def)
  next
    fix index
    assume "indexes (rag_vector_db svc) c = Some index" and "ntotal index = 0"
    then have "?cands = []"
      by (simp add: search_def split: option.splits)
    then show ?thesis by simp
  next
    assume "\<forall>x \<in> set ?cands. snd x < similarity_threshold svc"
    then have "filter (\<lambda>(cid, s). similarity_threshold svc \<le> s
                 \<and> query_chunk (rag_db svc) cid \<noteq> None) ?cands = []"
      by (auto simp: filter_empty_conv)
    then show ?thesis by (simp add: collect_relevant_eq)
  qed
  then have "search_relevant_chunks K svc c (Q query) = []"
    by (simp add: search_relevant_chunks_eq)
  then have "process_query Q K A svc query c student elapsed
      = create_no_results_response elapsed"
    using assms(1) by (simp add: process_query_def)
  then show ?thesis by (simp add: create_no_results_response_def)
qed

theorem process_query_no_results_witness:
  "indexes (rag_vector_db sample_rag_service) ''class1'' = None
   \<and> process_query (\<lambda>t. length t mod 384) (basis_kernel 384) (\<lambda>q ctx. ctx) sample_rag_service
        ''What is algebra?'' ''class1'' ''student1'' 3
     = create_no_results_response 3
   \<and> success (process_query (\<lambda>t. length t mod 384) (basis_kernel 384) (\<lambda>q ctx. ctx)
        sample_rag_service ''What is algebra?'' ''class1'' ''student1'' 3)"
proof -
  have c: "query_class (rag_db sample_rag_service) ''class1''
      = Some \<lparr>class_row_id = ''class1'', class_name = ''Math 101'', class_enabled = True\<rparr>"
    by (simp add: sample_rag_service_def RAGService_def sample_data_def query_class_def)
  have n: "indexes (rag_vector_db sample_rag_service) ''class1'' = None"
    by (simp add: sample_rag_service_def RAGService_def load_existing_indexes_def
        load_index_def VectorDatabase_def sample_data_def)
  show ?thesis
    using process_query_no_results [OF c disjI1 [OF n]] n
    by (simp add: create_no_results_response_def)
qed

section \<open>Properties of the sentence splitter\<close>

text \<open>
  Claim C8, as amended. A fragment of the split is kept, stripped, as a sentence exactly when
  its stripped length is more than 10 characters (at least 11): the result is the list
  of these, in order; every sentence has more than 10 characters, and a fragment whose
  stripped length is 10 or less is not among the sentences.
\<close>

theorem split_into_sentences_filter:
  "split_into_sentences text
     = map strip (filter (\<lambda>f. 11 \<le> length (strip f)) (re_split text))
   \<and> (\<forall>f \<in> set (re_split text).
         11 \<le> length (strip f) \<longrightarrow> strip f \<in> set (split_into_sentences text))
   \<and> (\<forall>s \<in> set (split_into_sentences text). 11 \<le> length s)
   \<and> (\<forall>f \<in> set (re_split text).
         length (strip f) \<le> 10 \<longrightarrow> strip f \<notin> set (split_into_sentences text))"
proof -
  have "(\<lambda>s. 10 < length (strip s)) = (\<lambda>f. 11 \<le> length (strip f))"
    by (rule ext) auto
  then have eq: "split_into_sentences text
     = map strip (filter (\<lambda>f. 11 \<le> length (strip f)) (re_split text))"
    by (simp add: split_into_sentences_def)
  show ?thesis
    unfolding eq by (intro conjI refl ballI impI) auto
qed

lemma section_text_split:
  "re_split ''Section 12. Addition is a basic operation.''
     = [''Section 12'', ''Addition is a basic operation.'']"
  by (simp add: re_split_def is_sentence_end_def is_space_def)

lemma section_text_strip:
  "strip ''Section 12'' = ''Section 12''"
  "strip ''Addition is a basic operation.'' = ''Addition is a basic operation.''"
  by (simp_all add: strip_def is_space_def)

theorem split_into_sentences_filter_witness:
  "''Section 12'' \<in> set (re_split ''Section 12. Addition is a basic operation.'')
   \<and> length (strip ''Section 12'') = 10
   \<and> split_into_sentences ''Section 12. Addition is a basic operation.''
       = [''Addition is a basic operation.'']"
  using split_into_sentences_filter [of "''Section 12. Addition is a basic operation.''"]
  by (simp add: section_text_split section_text_strip)

theorem fragment_of_ten_characters_discarded:
  "\<not> (\<forall>text. \<forall>f \<in> set (re_split text).
        10 \<le> length (strip f) \<longrightarrow> strip f \<in> set (split_into_sentences text))"
proof
  assume "\<forall>text. \<forall>f \<in> set (re_split text).
        10 \<le> length (strip f) \<longrightarrow> strip f \<in> set (split_into_sentences text)"
  moreover have "''Section 12'' \<in> set (re_split ''Section 12. Addition is a basic operation.'')"
    and "10 \<le> length (strip ''Section 12'')"
    by (simp_all add: section_text_split section_text_strip)
  ultimately have "strip ''Section 12''
      \<in> set (split_into_sentences ''Section 12. Addition is a basic operation.'')"
    by blast
  then show False
    by (simp add: split_into_sentences_def section_text_split section_text_strip)
qed

end
